theory Spec2Isabelle
  imports Main "HOL-Library.Word"
begin

section \<open>Data model of the block coordinator\<close>

text \<open>
  Shallow embedding of \<^verbatim>\<open>libs/ledger/src/chain/block_coordinator.cpp\<close>.
  Byte arrays (digests, identities) are lists of bytes; \<^verbatim>\<open>uint64_t\<close> block numbers and
  \<^verbatim>\<open>std::size_t\<close> lane counts are 64-bit words, so that \<^verbatim>\<open>+ 1\<close> wraps as in the source.
\<close>

type_synonym byte = "8 word"
type_synonym Digest = "byte list"
type_synonym Identity = "byte list"

text \<open>An entry of a slice; the handlers read only its \<^verbatim>\<open>transaction_hash\<close>.\<close>

record TransactionSummary =
  transaction_hash :: Digest

text \<open>
  \<^verbatim>\<open>Block\<close> with its body flattened. The declaration of the class is not part of the
  sources at hand; the fields are the ones the handlers read and write.
  \<^verbatim>\<open>log2_num_lanes\<close> is kept as the value of the unsigned field.
\<close>

record Block =
  hash :: Digest
  previous_hash :: Digest
  merkle_hash :: Digest
  block_number :: "64 word"
  miner :: Identity
  log2_num_lanes :: nat
  slices :: "TransactionSummary list list"
  nonce :: "64 word"
  proof_target :: nat

datatype State =
    RELOAD_STATE
  | SYNCHRONIZING
  | SYNCHRONIZED
  | PRE_EXEC_BLOCK_VALIDATION
  | WAIT_FOR_TRANSACTIONS
  | SCHEDULE_BLOCK_EXECUTION
  | WAIT_FOR_EXECUTION
  | POST_EXEC_BLOCK_VALIDATION
  | PACK_NEW_BLOCK
  | EXECUTE_NEW_BLOCK
  | WAIT_FOR_NEW_BLOCK_EXECUTION
  | PROOF_SEARCH
  | TRANSMIT_BLOCK
  | RESET

text \<open>\<^verbatim>\<open>BlockCoordinator::ExecutionStatus\<close>, the coordinator's own summary.\<close>

datatype ExecutionStatus = STATUS_IDLE | RUNNING | STALLED | ERROR

text \<open>\<^verbatim>\<open>ExecutionManagerInterface::State\<close>, as the switch of \<^verbatim>\<open>QueryExecutorStatus\<close> lists it.\<close>

datatype ExecutionState =
    IDLE
  | ACTIVE
  | TRANSACTIONS_UNAVAILABLE
  | EXECUTION_ABORTED
  | EXECUTION_FAILED

datatype ScheduleStatus =
    SCHEDULED
  | NOT_STARTED
  | ALREADY_RUNNING
  | NO_PARENT_BLOCK
  | UNABLE_TO_PLAN

datatype BlockStatus = ADDED | DUPLICATE | INVALID | OTHER_STATUS nat

datatype TransactionStatus = EXECUTED

text \<open>A call that returns normally, or one that throws a \<^verbatim>\<open>std::exception\<close>.\<close>

datatype 'a outcome = Returned 'a | Threw

text \<open>
  What a handler cannot recover from: the dereference of an unset block pointer, a read past
  the end of the ancestor path (guarded by a debug \<^verbatim>\<open>assert\<close> only), and a left shift
  of the 32-bit \<^verbatim>\<open>1u\<close> by 32 or more.
\<close>

datatype error = NullDereference | OutOfBounds | UndefinedShift

text \<open>The construction parameters and the two constants of \<^verbatim>\<open>ledger/chain/constants.hpp\<close>.\<close>

record config =
  GENESIS_DIGEST :: Digest
  GENESIS_MERKLE_ROOT :: Digest
  identity :: Identity
  block_difficulty :: nat
  num_lanes :: "64 word"
  num_slices :: nat

text \<open>
  The member variables the handlers use. \<^verbatim>\<open>pending_txs\<close> is an unordered set held through a
  pointer: \<open>None\<close> is the unset pointer, and the list holds each digest once, in the order
  the set's iterator visits them.
\<close>

record coordinator =
  current_block :: "Block option"
  next_block :: "Block option"
  pending_txs :: "Digest list option"
  last_executed_block :: Digest
  next_block_time :: int
  block_period :: int
  stall_count :: nat
  mining :: bool
  mining_enabled :: bool

text \<open>
  The answers of the collaborators during one tick: the chain, the storage unit, the
  execution manager, the packer, the miner, the status cache, the sink, the periodic polled
  before a logged dereference, and the clock. The handlers are stated for every such record.

  An exception is followed where the source catches it: in the \<^verbatim>\<open>try\<close> blocks of
  \<^verbatim>\<open>OnPackNewBlock\<close> and \<^verbatim>\<open>OnTransmitBlock\<close>. The calls to collaborators made there
  have an \<^typ>\<open>'a outcome\<close>; \<^verbatim>\<open>status_cache_Update\<close> is the outcome of the status
  cache's \<^verbatim>\<open>Update\<close> inside the second of them.
\<close>

record collaborators =
  chain_GetHeaviestBlock :: "Block option"
  chain_GetHeaviestBlockHash :: Digest
  chain_GetBlock :: "Digest \<Rightarrow> Block option"
  chain_GetPathToCommonAncestor :: "Digest \<Rightarrow> Digest \<Rightarrow> Block list option"
  chain_AddBlock :: "Block \<Rightarrow> BlockStatus outcome"
  storage_CurrentHash :: Digest
  storage_RevertToHash :: "Digest \<Rightarrow> 64 word \<Rightarrow> bool"
  storage_HashExists :: "Digest \<Rightarrow> 64 word \<Rightarrow> bool"
  storage_HasTransaction :: "Digest \<Rightarrow> bool"
  exec_LastProcessedBlock :: Digest
  exec_Execute :: "Block \<Rightarrow> ScheduleStatus"
  exec_GetState :: ExecutionState
  packer_GenerateBlock :: "Block \<Rightarrow> 64 word \<Rightarrow> nat \<Rightarrow> Block outcome"
  miner_Mine :: "Block \<Rightarrow> nat \<Rightarrow> bool \<times> Block"
  block_digest :: "Block \<Rightarrow> Digest"
  status_cache_Update :: "Digest \<Rightarrow> TransactionStatus \<Rightarrow> unit outcome"
  sink_OnBlock :: "Block \<Rightarrow> unit outcome"
  exec_wait_periodic_Poll :: bool
  clock_now :: int

text \<open>The calls a handler makes that change something outside the coordinator's variables.\<close>

datatype call =
    RemoveBlock Digest
  | AddBlock Block
  | RevertToHash Digest "64 word"
  | Commit "64 word"
  | SetLastProcessedBlock Digest
  | Execute Block
  | StatusCacheUpdate Digest TransactionStatus
  | LastExecutedBlockSet Digest
  | OnBlock Block
  | Delay nat

type_synonym result = "error + (State \<times> coordinator \<times> call list)"

definition DIGEST_LENGTH_BYTES :: nat where
  "DIGEST_LENGTH_BYTES = 32"

definition IDENTITY_LENGTH_BYTES :: nat where
  "IDENTITY_LENGTH_BYTES = 64"

section \<open>Helpers\<close>

text \<open>\<^verbatim>\<open>1u << n\<close> on a 32-bit \<^verbatim>\<open>unsigned int\<close>, widened to \<^verbatim>\<open>std::size_t\<close> for the comparison.\<close>

definition shift_one :: "nat \<Rightarrow> error + 64 word" where
  "shift_one n =
     (if n < 32 then Inr (ucast (push_bit n (1 :: 32 word))) else Inl UndefinedShift)"

definition UpdateNextBlockTime :: "collaborators \<Rightarrow> coordinator \<Rightarrow> coordinator" where
  "UpdateNextBlockTime env c = c\<lparr>next_block_time := clock_now env + block_period c\<rparr>"

definition TriggerBlockGeneration :: "collaborators \<Rightarrow> coordinator \<Rightarrow> coordinator" where
  "TriggerBlockGeneration env c =
     (if mining c then c\<lparr>next_block_time := clock_now env\<rparr> else c)"

text \<open>
  \<^verbatim>\<open>UpdateTxStatus\<close>: the loop over the slices of the block and, inside it, the loop over
  the transactions of a slice. \<open>update\<close> is the outcome of \<^verbatim>\<open>status_cache_.Update\<close>; the
  result is the calls made, in order, and whether the last of them threw, which ends both
  loops.
\<close>

fun update_slice ::
  "(Digest \<Rightarrow> TransactionStatus \<Rightarrow> unit outcome) \<Rightarrow> TransactionSummary list \<Rightarrow> call list \<times> bool" where
  "update_slice update [] = ([], False)"
| "update_slice update (tx # txs) =
     (case update (transaction_hash tx) EXECUTED of
        Threw \<Rightarrow> ([StatusCacheUpdate (transaction_hash tx) EXECUTED], True)
      | Returned u \<Rightarrow>
          (case update_slice update txs of
             (calls, threw) \<Rightarrow> (StatusCacheUpdate (transaction_hash tx) EXECUTED # calls, threw)))"

fun update_slices ::
  "(Digest \<Rightarrow> TransactionStatus \<Rightarrow> unit outcome) \<Rightarrow> TransactionSummary list list \<Rightarrow> call list \<times> bool" where
  "update_slices update [] = ([], False)"
| "update_slices update (txs # rest) =
     (case update_slice update txs of
        (calls, True) \<Rightarrow> (calls, True)
      | (calls, False) \<Rightarrow>
          (case update_slices update rest of (later, threw) \<Rightarrow> (calls @ later, threw)))"

text \<open>Inside the \<^verbatim>\<open>try\<close> block of \<^verbatim>\<open>OnTransmitBlock\<close>.\<close>

definition UpdateTxStatus_caught :: "collaborators \<Rightarrow> Block \<Rightarrow> call list \<times> bool" where
  "UpdateTxStatus_caught env b = update_slices (status_cache_Update env) (slices b)"

text \<open>
  In \<^verbatim>\<open>OnPostExecBlockValidation\<close>, outside any \<^verbatim>\<open>try\<close> block: the source has nothing
  there to catch an exception of the update, and the specification lets no fault escape a
  handler; every update is taken to return.
\<close>

definition UpdateTxStatus :: "Block \<Rightarrow> call list" where
  "UpdateTxStatus b = fst (update_slices (\<lambda>d status. Returned ()) (slices b))"

definition ScheduleBlock :: "collaborators \<Rightarrow> Block \<Rightarrow> bool" where
  "ScheduleBlock env b = (exec_Execute env b = SCHEDULED)"

definition ScheduleCurrentBlock :: "collaborators \<Rightarrow> coordinator \<Rightarrow> bool \<times> call list" where
  "ScheduleCurrentBlock env c =
     (case current_block c of
        Some b \<Rightarrow> (ScheduleBlock env b, [Execute b])
      | None \<Rightarrow> (False, []))"

definition ScheduleNextBlock :: "collaborators \<Rightarrow> coordinator \<Rightarrow> bool \<times> call list" where
  "ScheduleNextBlock env c =
     (case next_block c of
        Some b \<Rightarrow> (ScheduleBlock env b, [Execute b])
      | None \<Rightarrow> (False, []))"

definition QueryExecutorStatus :: "collaborators \<Rightarrow> ExecutionStatus" where
  "QueryExecutorStatus env =
     (case exec_GetState env of
        IDLE \<Rightarrow> STATUS_IDLE
      | ACTIVE \<Rightarrow> RUNNING
      | TRANSACTIONS_UNAVAILABLE \<Rightarrow> STALLED
      | EXECUTION_ABORTED \<Rightarrow> ERROR
      | EXECUTION_FAILED \<Rightarrow> ERROR)"

text \<open>\<^verbatim>\<open>pending_txs_->insert(d)\<close>: a digest already in the set is not added again.\<close>

definition tx_insert :: "Digest \<Rightarrow> Digest list \<Rightarrow> Digest list" where
  "tx_insert d s = (if d \<in> set s then s else s @ [d])"

text \<open>
  The loops that fill the set: over the transactions of a slice, and over the slices of
  the block.
\<close>

fun insert_slice :: "TransactionSummary list \<Rightarrow> Digest list \<Rightarrow> Digest list" where
  "insert_slice [] s = s"
| "insert_slice (tx # txs) s = insert_slice txs (tx_insert (transaction_hash tx) s)"

fun insert_slices :: "TransactionSummary list list \<Rightarrow> Digest list \<Rightarrow> Digest list" where
  "insert_slices [] s = s"
| "insert_slices (txs # rest) s = insert_slices rest (insert_slice txs s)"

text \<open>
  The \<^verbatim>\<open>while (it != end)\<close> loop: an entry the storage has is erased, the others are kept
  and the iterator advances.
\<close>

fun erase_present :: "(Digest \<Rightarrow> bool) \<Rightarrow> Digest list \<Rightarrow> Digest list" where
  "erase_present has [] = []"
| "erase_present has (d # s) =
     (if has d then erase_present has s else d # erase_present has s)"

text \<open>A value-initialised \<^verbatim>\<open>Block\<close>, as \<^verbatim>\<open>std::make_unique<Block>()\<close> gives.\<close>

definition empty_block :: Block where
  "empty_block =
     \<lparr>hash = [], previous_hash = [], merkle_hash = [], block_number = 0, miner = [],
      log2_num_lanes = 0, slices = [], nonce = 0, proof_target = 0\<rparr>"

text \<open>\<^verbatim>\<open>Block::UpdateDigest\<close>: recompute \<^verbatim>\<open>hash\<close> from the block.\<close>

definition UpdateDigest :: "collaborators \<Rightarrow> Block \<Rightarrow> Block" where
  "UpdateDigest env b = b\<lparr>hash := block_digest env b\<rparr>"

section \<open>The state handlers\<close>

text \<open>
  Each handler takes the construction parameters, the collaborators' answers and the member
  variables, and gives the next state, the updated variables and the calls it made, in
  order; or the fault it runs into. Logging is left out.
\<close>

definition OnReloadState :: "config \<Rightarrow> collaborators \<Rightarrow> coordinator \<Rightarrow> result" where
  "OnReloadState cfg env c =
     (let c1 = (if current_block c = None
                then c\<lparr>current_block := chain_GetHeaviestBlock env\<rparr> else c)
      in case current_block c1 of
           None \<Rightarrow> Inl NullDereference
         | Some b \<Rightarrow>
             if GENESIS_DIGEST cfg \<noteq> previous_hash b then
               (if storage_RevertToHash env (merkle_hash b) (block_number b)
                then Inr (RESET, c1\<lparr>last_executed_block := hash b\<rparr>,
                          [RevertToHash (merkle_hash b) (block_number b),
                           SetLastProcessedBlock (hash b),
                           LastExecutedBlockSet (hash b)])
                else Inr (RESET, c1, [RevertToHash (merkle_hash b) (block_number b)]))
             else Inr (RESET, c1, []))"

definition OnSynchronizing :: "config \<Rightarrow> collaborators \<Rightarrow> coordinator \<Rightarrow> result" where
  "OnSynchronizing cfg env c =
     (let c1 = (if current_block c = None
                then c\<lparr>current_block := chain_GetHeaviestBlock env\<rparr> else c)
      in case current_block c1 of
           None \<Rightarrow> Inl NullDereference
         | Some b \<Rightarrow>
             let current_hash = hash b;
                 last_processed_block = exec_LastProcessedBlock env
             in if GENESIS_DIGEST cfg = last_processed_block then
                  (if GENESIS_DIGEST cfg = previous_hash b
                   then Inr (PRE_EXEC_BLOCK_VALIDATION, c1, [])
                   else case chain_GetBlock env (previous_hash b) of
                          None \<Rightarrow> Inr (RESET, c1, [])
                        | Some previous_block \<Rightarrow>
                            Inr (SYNCHRONIZING, c1\<lparr>current_block := Some previous_block\<rparr>, []))
                else if current_hash = last_processed_block then Inr (SYNCHRONIZED, c1, [])
                else
                  (case chain_GetPathToCommonAncestor env current_hash last_processed_block of
                     None \<Rightarrow> Inr (RESET, c1, [])
                   | Some blocks \<Rightarrow>
                       if length blocks < 2 then Inl OutOfBounds
                       else
                         let common_parent = blocks ! (length blocks - 1);
                             next_blk = blocks ! (length blocks - 2)
                         in if \<not> storage_HashExists env (merkle_hash common_parent)
                                   (block_number common_parent)
                            then Inr (RESET, c1,
                                      [SetLastProcessedBlock (GENESIS_DIGEST cfg),
                                       RevertToHash (GENESIS_MERKLE_ROOT cfg) 0])
                            else if \<not> storage_RevertToHash env (merkle_hash common_parent)
                                        (block_number common_parent)
                            then Inr (RESET, c1,
                                      [RevertToHash (merkle_hash common_parent)
                                         (block_number common_parent)])
                            else Inr (PRE_EXEC_BLOCK_VALIDATION,
                                      c1\<lparr>current_block := Some next_blk\<rparr>,
                                      [RevertToHash (merkle_hash common_parent)
                                         (block_number common_parent)])))"

text \<open>The \<^verbatim>\<open>previous\<close> state argument of the source is used for a log line only.\<close>

definition OnSynchronized :: "config \<Rightarrow> collaborators \<Rightarrow> coordinator \<Rightarrow> result" where
  "OnSynchronized cfg env c =
     (case current_block c of
        None \<Rightarrow> Inl NullDereference
      | Some b \<Rightarrow>
          if chain_GetHeaviestBlockHash env \<noteq> hash b then Inr (RESET, c, [])
          else if mining c \<and> mining_enabled c \<and> next_block_time c \<le> clock_now env then
            Inr (PACK_NEW_BLOCK,
                 c\<lparr>next_block := Some (empty_block\<lparr>previous_hash := hash b,
                                                    block_number := block_number b + 1,
                                                    miner := identity cfg,
                                                    proof_target := block_difficulty cfg\<rparr>),
                   current_block := None\<rparr>,
                 [])
          else Inr (SYNCHRONIZED, c, []))"

definition OnPreExecBlockValidation :: "config \<Rightarrow> collaborators \<Rightarrow> coordinator \<Rightarrow> result" where
  "OnPreExecBlockValidation cfg env c =
     (case current_block c of
        None \<Rightarrow> Inl NullDereference
      | Some b \<Rightarrow>
          let is_genesis = (previous_hash b = GENESIS_DIGEST cfg);
              rejected = Inr (RESET, c, [RemoveBlock (hash b)]);
              digest_size_check =
                (if DIGEST_LENGTH_BYTES \<noteq> length (previous_hash b) then rejected
                 else Inr (WAIT_FOR_TRANSACTIONS, c, []))
          in if \<not> is_genesis then
               (case chain_GetBlock env (previous_hash b) of
                  None \<Rightarrow> rejected
                | Some previous \<Rightarrow>
                    let expected_block_number = block_number previous + 1
                    in if expected_block_number \<noteq> block_number b then rejected
                       else if IDENTITY_LENGTH_BYTES \<noteq> length (miner b) then rejected
                       else
                         (case shift_one (log2_num_lanes b) of
                            Inl e \<Rightarrow> Inl e
                          | Inr lanes \<Rightarrow>
                              if num_lanes cfg \<noteq> lanes then rejected
                              else if num_slices cfg \<noteq> length (slices b) then rejected
                              else digest_size_check))
             else digest_size_check)"

definition OnWaitForTransactions :: "config \<Rightarrow> collaborators \<Rightarrow> coordinator \<Rightarrow> result" where
  "OnWaitForTransactions cfg env c =
     (case (case pending_txs c of
              Some s \<Rightarrow> Inr s
            | None \<Rightarrow>
                (case current_block c of
                   None \<Rightarrow> Inl NullDereference
                 | Some b \<Rightarrow> Inr (insert_slices (slices b) []))) of
        Inl e \<Rightarrow> Inl e
      | Inr s0 \<Rightarrow>
          let s1 = erase_present (storage_HasTransaction env) s0
          in if s1 = [] then Inr (SCHEDULE_BLOCK_EXECUTION, c\<lparr>pending_txs := None\<rparr>, [])
             else Inr (WAIT_FOR_TRANSACTIONS, c\<lparr>pending_txs := Some s1\<rparr>, [Delay 200]))"

definition OnScheduleBlockExecution :: "config \<Rightarrow> collaborators \<Rightarrow> coordinator \<Rightarrow> result" where
  "OnScheduleBlockExecution cfg env c =
     (case ScheduleCurrentBlock env c of
        (True, calls) \<Rightarrow> Inr (WAIT_FOR_EXECUTION, c, calls)
      | (False, calls) \<Rightarrow> Inr (RESET, c, calls))"

text \<open>
  While the executor runs, the block's hash is read for a log line when the periodic
  fires; that read dereferences \<^verbatim>\<open>current_block_\<close>.
\<close>

definition OnWaitForExecution :: "config \<Rightarrow> collaborators \<Rightarrow> coordinator \<Rightarrow> result" where
  "OnWaitForExecution cfg env c =
     (case QueryExecutorStatus env of
        STATUS_IDLE \<Rightarrow> Inr (POST_EXEC_BLOCK_VALIDATION, c, [])
      | RUNNING \<Rightarrow>
          if exec_wait_periodic_Poll env \<and> current_block c = None then Inl NullDereference
          else Inr (WAIT_FOR_EXECUTION, c, [Delay 20])
      | STALLED \<Rightarrow> Inr (RESET, c, [])
      | ERROR \<Rightarrow> Inr (RESET, c, []))"

definition OnPostExecBlockValidation :: "config \<Rightarrow> collaborators \<Rightarrow> coordinator \<Rightarrow> result" where
  "OnPostExecBlockValidation cfg env c =
     (case current_block c of
        None \<Rightarrow> Inl NullDereference
      | Some b \<Rightarrow>
          let state_hash = storage_CurrentHash env;
              invalid_block =
                (GENESIS_DIGEST cfg \<noteq> previous_hash b \<and> state_hash \<noteq> merkle_hash b)
          in if invalid_block then
               (let (revert_successful, calls1) =
                      (case chain_GetBlock env (previous_hash b) of
                         None \<Rightarrow> (False, [])
                       | Some previous_block \<Rightarrow>
                           if storage_RevertToHash env (merkle_hash previous_block)
                                (block_number previous_block)
                           then (True,
                                 [RevertToHash (merkle_hash previous_block)
                                    (block_number previous_block),
                                  SetLastProcessedBlock (hash previous_block)])
                           else (False,
                                 [RevertToHash (merkle_hash previous_block)
                                    (block_number previous_block)]));
                    calls2 =
                      (if \<not> revert_successful
                       then [RevertToHash (GENESIS_MERKLE_ROOT cfg) 0,
                             SetLastProcessedBlock (GENESIS_DIGEST cfg)]
                       else [])
                in Inr (RESET, c, calls1 @ calls2 @ [RemoveBlock (hash b)]))
             else Inr (RESET, c\<lparr>last_executed_block := hash b\<rparr>,
                       UpdateTxStatus b @ [Commit (block_number b), LastExecutedBlockSet (hash b)]))"

text \<open>A packer that throws leaves the candidate to be dropped by the following reset.\<close>

definition OnPackNewBlock :: "config \<Rightarrow> collaborators \<Rightarrow> coordinator \<Rightarrow> result" where
  "OnPackNewBlock cfg env c =
     (case next_block c of
        None \<Rightarrow> Inl NullDereference
      | Some nb \<Rightarrow>
          (case packer_GenerateBlock env nb (num_lanes cfg) (num_slices cfg) of
             Threw \<Rightarrow> Inr (RESET, c, [])
           | Returned packed \<Rightarrow>
               Inr (EXECUTE_NEW_BLOCK, UpdateNextBlockTime env (c\<lparr>next_block := Some packed\<rparr>), [])))"

definition OnExecuteNewBlock :: "config \<Rightarrow> collaborators \<Rightarrow> coordinator \<Rightarrow> result" where
  "OnExecuteNewBlock cfg env c =
     (case ScheduleNextBlock env c of
        (True, calls) \<Rightarrow> Inr (WAIT_FOR_NEW_BLOCK_EXECUTION, c, calls)
      | (False, calls) \<Rightarrow> Inr (RESET, c, calls))"

definition OnWaitForNewBlockExecution :: "config \<Rightarrow> collaborators \<Rightarrow> coordinator \<Rightarrow> result" where
  "OnWaitForNewBlockExecution cfg env c =
     (case QueryExecutorStatus env of
        STATUS_IDLE \<Rightarrow>
          (case next_block c of
             None \<Rightarrow> Inl NullDereference
           | Some nb \<Rightarrow>
               Inr (PROOF_SEARCH,
                    c\<lparr>next_block := Some (nb\<lparr>merkle_hash := storage_CurrentHash env\<rparr>)\<rparr>,
                    [Commit (block_number nb)]))
      | RUNNING \<Rightarrow>
          if exec_wait_periodic_Poll env \<and> next_block c = None then Inl NullDereference
          else Inr (WAIT_FOR_NEW_BLOCK_EXECUTION, c, [Delay 20])
      | STALLED \<Rightarrow> Inr (RESET, c, [])
      | ERROR \<Rightarrow> Inr (RESET, c, []))"

definition OnProofSearch :: "config \<Rightarrow> collaborators \<Rightarrow> coordinator \<Rightarrow> result" where
  "OnProofSearch cfg env c =
     (case next_block c of
        None \<Rightarrow> Inl NullDereference
      | Some nb \<Rightarrow>
          (case miner_Mine env nb 100 of
             (True, mined) \<Rightarrow>
               let digested = UpdateDigest env mined
               in Inr (TRANSMIT_BLOCK, c\<lparr>next_block := Some digested\<rparr>,
                       [SetLastProcessedBlock (hash digested)])
           | (False, tried) \<Rightarrow> Inr (PROOF_SEARCH, c\<lparr>next_block := Some tried\<rparr>, [])))"

text \<open>
  The \<^verbatim>\<open>try\<close> block. An exception of \<^verbatim>\<open>AddBlock\<close> skips the rest; one of the status
  cache ends the updates and skips the two statements after them; one of the sink's
  \<^verbatim>\<open>OnBlock\<close>, the last statement, is caught after the call was made. The write of the
  coordinator's own \<^verbatim>\<open>last_executed_block_\<close> is an assignment.
\<close>

definition OnTransmitBlock :: "config \<Rightarrow> collaborators \<Rightarrow> coordinator \<Rightarrow> result" where
  "OnTransmitBlock cfg env c =
     (case next_block c of
        None \<Rightarrow> Inl NullDereference
      | Some nb \<Rightarrow>
          (case chain_AddBlock env nb of
             Threw \<Rightarrow> Inr (RESET, c, [AddBlock nb])
           | Returned status \<Rightarrow>
               if status = ADDED then
                 (case UpdateTxStatus_caught env nb of
                    (updates, True) \<Rightarrow> Inr (RESET, c, AddBlock nb # updates)
                  | (updates, False) \<Rightarrow>
                      (case sink_OnBlock env nb of
                         Returned u \<Rightarrow>
                           Inr (RESET, c\<lparr>last_executed_block := hash nb\<rparr>,
                                AddBlock nb # updates
                                  @ [LastExecutedBlockSet (hash nb), OnBlock nb])
                       | Threw \<Rightarrow>
                           Inr (RESET, c\<lparr>last_executed_block := hash nb\<rparr>,
                                AddBlock nb # updates
                                  @ [LastExecutedBlockSet (hash nb), OnBlock nb])))
               else Inr (RESET, c, [AddBlock nb])))"

definition OnReset :: "config \<Rightarrow> collaborators \<Rightarrow> coordinator \<Rightarrow> result" where
  "OnReset cfg env c =
     Inr (SYNCHRONIZING,
          UpdateNextBlockTime env
            (c\<lparr>current_block := None, next_block := None, pending_txs := None,
               stall_count := 0\<rparr>),
          [])"

section \<open>The state machine\<close>

text \<open>The handler registered for each state by the constructor.\<close>

fun handler :: "State \<Rightarrow> config \<Rightarrow> collaborators \<Rightarrow> coordinator \<Rightarrow> result" where
  "handler RELOAD_STATE = OnReloadState"
| "handler SYNCHRONIZING = OnSynchronizing"
| "handler SYNCHRONIZED = OnSynchronized"
| "handler PRE_EXEC_BLOCK_VALIDATION = OnPreExecBlockValidation"
| "handler WAIT_FOR_TRANSACTIONS = OnWaitForTransactions"
| "handler SCHEDULE_BLOCK_EXECUTION = OnScheduleBlockExecution"
| "handler WAIT_FOR_EXECUTION = OnWaitForExecution"
| "handler POST_EXEC_BLOCK_VALIDATION = OnPostExecBlockValidation"
| "handler PACK_NEW_BLOCK = OnPackNewBlock"
| "handler EXECUTE_NEW_BLOCK = OnExecuteNewBlock"
| "handler WAIT_FOR_NEW_BLOCK_EXECUTION = OnWaitForNewBlockExecution"
| "handler PROOF_SEARCH = OnProofSearch"
| "handler TRANSMIT_BLOCK = OnTransmitBlock"
| "handler RESET = OnReset"

text \<open>
  Modelled from the spec: the state machine runtime (\<^verbatim>\<open>core/state_machine.hpp\<close> is not among
  the sources). A tick invokes the handler of the current state and moves to the state it
  returns.
\<close>

type_synonym machine = "State \<times> coordinator"

definition Tick :: "config \<Rightarrow> collaborators \<Rightarrow> machine \<Rightarrow> error + (machine \<times> call list)" where
  "Tick cfg env m =
     (case handler (fst m) cfg env (snd m) of
        Inl e \<Rightarrow> Inl e
      | Inr (next_state, c', calls) \<Rightarrow> Inr ((next_state, c'), calls))"

section \<open>Notions of the specification\<close>

text \<open>The transaction digests of a block: those of its first slice, then of the next ones.\<close>

definition tx_digests :: "Block \<Rightarrow> Digest list" where
  "tx_digests b = concat (map (map transaction_hash) (slices b))"

text \<open>
  The set a tick of \<^verbatim>\<open>WAIT_FOR_TRANSACTIONS\<close> starts from: the pending set when there is
  one, every transaction hash of every slice of the current block otherwise.
\<close>

definition pending_before :: "coordinator \<Rightarrow> Digest set" where
  "pending_before c =
     (case pending_txs c of
        Some s \<Rightarrow> set s
      | None \<Rightarrow>
          (case current_block c of
             Some b \<Rightarrow> (\<Union>txs \<in> set (slices b). transaction_hash ` set txs)
           | None \<Rightarrow> {}))"

text \<open>
  The documented checks of \<^verbatim>\<open>PRE_EXEC_BLOCK_VALIDATION\<close>, in the specification's words:
  unless the previous hash is the genesis digest, the previous block exists, the block
  number continues it, the miner has 64 bytes, \<open>1 << log2_num_lanes\<close> is the lane count
  and the slice count is the configured one; independently, the previous hash has 32 bytes.
\<close>

definition pre_exec_check_failed :: "config \<Rightarrow> collaborators \<Rightarrow> Block \<Rightarrow> bool" where
  "pre_exec_check_failed cfg env b =
     ((previous_hash b \<noteq> GENESIS_DIGEST cfg \<and>
        (case chain_GetBlock env (previous_hash b) of
           None \<Rightarrow> True
         | Some previous \<Rightarrow>
             block_number b \<noteq> block_number previous + 1
             \<or> length (miner b) \<noteq> 64
             \<or> unat (num_lanes cfg) \<noteq> 2 ^ log2_num_lanes b
             \<or> length (slices b) \<noteq> num_slices cfg))
      \<or> length (previous_hash b) \<noteq> 32)"

text \<open>The Merkle comparison of \<^verbatim>\<open>POST_EXEC_BLOCK_VALIDATION\<close>, made unless the previous hash is genesis.\<close>

definition merkle_check_failed :: "config \<Rightarrow> collaborators \<Rightarrow> Block \<Rightarrow> bool" where
  "merkle_check_failed cfg env b =
     (previous_hash b \<noteq> GENESIS_DIGEST cfg \<and> storage_CurrentHash env \<noteq> merkle_hash b)"

text \<open>The block \<^verbatim>\<open>SYNCHRONIZING\<close> works on: the current one, the heaviest when there is none.\<close>

definition current_or_heaviest :: "collaborators \<Rightarrow> coordinator \<Rightarrow> Block option" where
  "current_or_heaviest env c =
     (case current_block c of None \<Rightarrow> chain_GetHeaviestBlock env | Some b \<Rightarrow> Some b)"

text \<open>
  Modelled from the spec: the storage unit's Merkle hash after the calls of a handler (the
  storage unit's implementation is not among the sources). A \<^verbatim>\<open>RevertToHash\<close> that
  succeeds leaves the storage at the hash asked for; a failed one, \<^verbatim>\<open>Commit\<close> and the
  calls to other collaborators leave it where it was.
\<close>

fun storage_hash_after :: "collaborators \<Rightarrow> Digest \<Rightarrow> call list \<Rightarrow> Digest" where
  "storage_hash_after env cur [] = cur"
| "storage_hash_after env cur (RevertToHash h n # calls) =
     storage_hash_after env (if storage_RevertToHash env h n then h else cur) calls"
| "storage_hash_after env cur (other # calls) = storage_hash_after env cur calls"

text \<open>
  What happens to a coordinator from outside: a tick of the state machine, with the
  collaborators' answers during it, or a call of \<^verbatim>\<open>TriggerBlockGeneration\<close>.
\<close>

datatype event = TickEvent collaborators | TriggerBlockGenerationEvent collaborators

fun apply_event :: "config \<Rightarrow> event \<Rightarrow> machine \<Rightarrow> error + machine" where
  "apply_event cfg (TickEvent env) m =
     (case Tick cfg env m of Inl e \<Rightarrow> Inl e | Inr (m', calls) \<Rightarrow> Inr m')"
| "apply_event cfg (TriggerBlockGenerationEvent env) m =
     Inr (fst m, TriggerBlockGeneration env (snd m))"

fun run :: "config \<Rightarrow> event list \<Rightarrow> machine \<Rightarrow> error + machine" where
  "run cfg [] m = Inr m"
| "run cfg (ev # evs) m =
     (case apply_event cfg ev m of Inl e \<Rightarrow> Inl e | Inr m' \<Rightarrow> run cfg evs m')"

text \<open>The precondition of claim C10: the chain always has a heaviest block to give.\<close>

fun heaviest_block_known :: "event \<Rightarrow> bool" where
  "heaviest_block_known (TickEvent env) = (chain_GetHeaviestBlock env \<noteq> None)"
| "heaviest_block_known (TriggerBlockGenerationEvent env) = True"

text \<open>The states whose handlers dereference the current block, and the next block.\<close>

definition reads_current_block :: "State \<Rightarrow> bool" where
  "reads_current_block st =
     (st = SYNCHRONIZED \<or> st = PRE_EXEC_BLOCK_VALIDATION \<or> st = WAIT_FOR_TRANSACTIONS
      \<or> st = WAIT_FOR_EXECUTION \<or> st = POST_EXEC_BLOCK_VALIDATION)"

definition reads_next_block :: "State \<Rightarrow> bool" where
  "reads_next_block st =
     (st = PACK_NEW_BLOCK \<or> st = EXECUTE_NEW_BLOCK \<or> st = WAIT_FOR_NEW_BLOCK_EXECUTION
      \<or> st = PROOF_SEARCH \<or> st = TRANSMIT_BLOCK)"

definition block_references_set :: "machine \<Rightarrow> bool" where
  "block_references_set m =
     ((reads_current_block (fst m) \<longrightarrow> current_block (snd m) \<noteq> None)
      \<and> (reads_next_block (fst m) \<longrightarrow> next_block (snd m) \<noteq> None))"

text \<open>What a tick must not do, and what it must leave behind.\<close>

definition keeps_references :: "result \<Rightarrow> bool" where
  "keeps_references r =
     (case r of
        Inl e \<Rightarrow> e \<noteq> NullDereference
      | Inr (st', c', calls) \<Rightarrow> block_references_set (st', c'))"

text \<open>A tick changes \<^verbatim>\<open>last_executed_block\<close> only by writing it.\<close>

definition write_logged :: "coordinator \<Rightarrow> result \<Rightarrow> bool" where
  "write_logged c r =
     (case r of
        Inl e \<Rightarrow> True
      | Inr (st', c', calls) \<Rightarrow>
          last_executed_block c' = last_executed_block c
          \<or> LastExecutedBlockSet (last_executed_block c') \<in> set calls)"

text \<open>
  From the tick of \<^verbatim>\<open>WAIT_FOR_NEW_BLOCK_EXECUTION\<close> that sees the executor idle to the
  transmission, nothing runs on the storage: its hash stays \<open>S\<close>, and the miner, which
  tries nonces, leaves the Merkle hash of the candidate alone.
\<close>

fun storage_stays :: "Digest \<Rightarrow> event \<Rightarrow> bool" where
  "storage_stays S (TickEvent env) =
     (storage_CurrentHash env = S
      \<and> (\<forall>b n. merkle_hash (snd (miner_Mine env b n)) = merkle_hash b))"
| "storage_stays S (TriggerBlockGenerationEvent env) = True"

text \<open>While the proof is searched and the block transmitted, the candidate declares \<open>S\<close>.\<close>

definition candidate_merkle :: "Digest \<Rightarrow> machine \<Rightarrow> bool" where
  "candidate_merkle S m =
     (if fst m = PROOF_SEARCH \<or> fst m = TRANSMIT_BLOCK
      then (case next_block (snd m) of None \<Rightarrow> False | Some nb \<Rightarrow> merkle_hash nb = S)
      else True)"

definition keeps_candidate :: "Digest \<Rightarrow> result \<Rightarrow> bool" where
  "keeps_candidate S r =
     (case r of
        Inl e \<Rightarrow> True
      | Inr (st', c', calls) \<Rightarrow> candidate_merkle S (st', c'))"

text \<open>
  Modelled from the spec: the chain store's \<^verbatim>\<open>GetBlock\<close> and \<^verbatim>\<open>GetPathToCommonAncestor\<close>
  (\<^verbatim>\<open>MainChain\<close> is not among the sources). The store holds the known blocks. On success
  the path is a non-empty sequence whose first element is the block at \<open>from\<close> and whose
  last is the common ancestor, the first block on the way back from \<open>from\<close> that is also
  on the way back from \<open>to\<close>; the elements between are the walk. The lookup fails when
  there is no such block.
\<close>

type_synonym chain_store = "Block list"

definition store_GetBlock :: "chain_store \<Rightarrow> Digest \<Rightarrow> Block option" where
  "store_GetBlock store h = find (\<lambda>b. hash b = h) store"

fun walk_back :: "nat \<Rightarrow> chain_store \<Rightarrow> Digest \<Rightarrow> Block list" where
  "walk_back 0 store h = []"
| "walk_back (Suc n) store h =
     (case store_GetBlock store h of
        None \<Rightarrow> []
      | Some b \<Rightarrow> b # walk_back n store (previous_hash b))"

definition store_GetPathToCommonAncestor ::
  "chain_store \<Rightarrow> Digest \<Rightarrow> Digest \<Rightarrow> Block list option" where
  "store_GetPathToCommonAncestor store from to =
     (let to_line = map hash (walk_back (length store) store to);
          from_line = walk_back (length store) store from
      in case find (\<lambda>b. hash b \<in> set to_line) from_line of
           None \<Rightarrow> None
         | Some ancestor \<Rightarrow>
             Some (takeWhile (\<lambda>b. hash b \<notin> set to_line) from_line @ [ancestor]))"





text \<open>
  Only \<^verbatim>\<open>SYNCHRONIZING\<close> reads a path; and it is entered with the current block set only
  from itself, on the walk back.
\<close>

definition walk_post :: "config \<Rightarrow> collaborators \<Rightarrow> State \<Rightarrow> result \<Rightarrow> bool" where
  "walk_post cfg env st r =
     (case r of
        Inl e \<Rightarrow> e = OutOfBounds \<longrightarrow> st = SYNCHRONIZING
      | Inr (st', c', calls) \<Rightarrow>
          st' = SYNCHRONIZING \<and> current_block c' \<noteq> None \<longrightarrow>
          st = SYNCHRONIZING \<and> exec_LastProcessedBlock env = GENESIS_DIGEST cfg)"

section \<open>A concrete configuration\<close>

definition example_cfg :: config where
  "example_cfg =
     \<lparr>GENESIS_DIGEST = replicate 32 0, GENESIS_MERKLE_ROOT = replicate 32 1,
      identity = replicate 64 7, block_difficulty = 1, num_lanes = 1, num_slices = 1\<rparr>"

definition example_coordinator :: coordinator where
  "example_coordinator =
     \<lparr>current_block = None, next_block = None, pending_txs = None,
      last_executed_block = replicate 32 0, next_block_time = 0, block_period = 10,
      stall_count = 0, mining = False, mining_enabled = False\<rparr>"

text \<open>Collaborators that know no block, hold every transaction and accept every request.\<close>

definition example_env :: collaborators where
  "example_env =
     \<lparr>chain_GetHeaviestBlock = None,
      chain_GetHeaviestBlockHash = replicate 32 0,
      chain_GetBlock = (\<lambda>h. None),
      chain_GetPathToCommonAncestor = (\<lambda>a b. None),
      chain_AddBlock = (\<lambda>b. Returned ADDED),
      storage_CurrentHash = replicate 32 1,
      storage_RevertToHash = (\<lambda>h n. True),
      storage_HashExists = (\<lambda>h n. True),
      storage_HasTransaction = (\<lambda>h. True),
      exec_LastProcessedBlock = replicate 32 0,
      exec_Execute = (\<lambda>b. SCHEDULED),
      exec_GetState = IDLE,
      packer_GenerateBlock = (\<lambda>b l s. Returned b),
      miner_Mine = (\<lambda>b n. (True, b)),
      block_digest = (\<lambda>b. replicate 32 9),
      status_cache_Update = (\<lambda>d status. Returned ()),
      sink_OnBlock = (\<lambda>b. Returned ()),
      exec_wait_periodic_Poll = False,
      clock_now = 100\<rparr>"

text \<open>
  Three blocks in a line after genesis. The first two declare eight lanes where one is
  configured, and a Merkle hash that is not the storage's.
\<close>

definition block_A1 :: Block where
  "block_A1 =
     \<lparr>hash = replicate 32 2, previous_hash = replicate 32 0, merkle_hash = replicate 32 3,
      block_number = 1, miner = replicate 64 7, log2_num_lanes = 3,
      slices = [[\<lparr>transaction_hash = replicate 32 4\<rparr>]], nonce = 0, proof_target = 1\<rparr>"

definition block_A2 :: Block where
  "block_A2 =
     \<lparr>hash = replicate 32 5, previous_hash = replicate 32 2, merkle_hash = replicate 32 6,
      block_number = 2, miner = replicate 64 7, log2_num_lanes = 3,
      slices = [[\<lparr>transaction_hash = replicate 32 8\<rparr>]], nonce = 0, proof_target = 1\<rparr>"

definition block_A3 :: Block where
  "block_A3 =
     \<lparr>hash = replicate 32 11, previous_hash = replicate 32 5, merkle_hash = replicate 32 12,
      block_number = 3, miner = replicate 64 7, log2_num_lanes = 0,
      slices = [[]], nonce = 0, proof_target = 1\<rparr>"

definition coordinator_at :: "Block \<Rightarrow> coordinator" where
  "coordinator_at b = example_coordinator\<lparr>current_block := Some b\<rparr>"

definition producing_at :: "Block \<Rightarrow> coordinator" where
  "producing_at b = example_coordinator\<lparr>next_block := Some b\<rparr>"

text \<open>
  A reorganisation: the last processed block is on another branch, the path from the
  third block leads back to the first, whose state the storage knows but fails to restore.
\<close>

definition reorg_env :: collaborators where
  "reorg_env =
     example_env\<lparr>exec_LastProcessedBlock := replicate 32 10,
                 chain_GetPathToCommonAncestor := (\<lambda>a b. Some [block_A3, block_A2, block_A1]),
                 storage_RevertToHash := (\<lambda>h n. False)\<rparr>"

text \<open>A storage whose hash is the one the second block declares.\<close>

definition matching_env :: collaborators where
  "matching_env = example_env\<lparr>storage_CurrentHash := replicate 32 6\<rparr>"

text \<open>A chain whose heaviest block is the first block.\<close>

definition heaviest_env :: collaborators where
  "heaviest_env = example_env\<lparr>chain_GetHeaviestBlock := Some block_A1\<rparr>"

text \<open>
  A store of the first two blocks: the first block is on the way back from the second.
\<close>

definition two_block_store :: chain_store where
  "two_block_store = [block_A1, block_A2]"

text \<open>
  A fork: a second block on the first one, which the chain now holds to be the heaviest,
  while the three blocks of the other branch have been executed. The storage is at the
  state of the third block, and can go back to that of the first, but does not have the
  state of the new block.
\<close>

definition block_B2 :: Block where
  "block_B2 = block_A2\<lparr>hash := replicate 32 14, merkle_hash := replicate 32 15\<rparr>"

definition fork_store :: chain_store where
  "fork_store = [block_A1, block_A2, block_A3, block_B2]"

definition fork_env :: collaborators where
  "fork_env =
     example_env\<lparr>chain_GetHeaviestBlock := Some block_B2,
                 chain_GetHeaviestBlockHash := replicate 32 14,
                 chain_GetBlock := store_GetBlock fork_store,
                 chain_GetPathToCommonAncestor := store_GetPathToCommonAncestor fork_store,
                 exec_LastProcessedBlock := replicate 32 11,
                 storage_CurrentHash := replicate 32 12,
                 storage_RevertToHash := (\<lambda>h n. h = replicate 32 3),
                 storage_HashExists := (\<lambda>h n. h = replicate 32 3)\<rparr>"

text \<open>A coordinator whose last executed block is the given one.\<close>

definition executed_at :: "Block \<Rightarrow> coordinator" where
  "executed_at b = example_coordinator\<lparr>last_executed_block := hash b\<rparr>"

text \<open>
  A storage that has run the second block to a state the block does not declare, cannot
  go back to the state of the first, and can go back to the empty state.
\<close>

definition diverged_env :: collaborators where
  "diverged_env =
     example_env\<lparr>chain_GetBlock := (\<lambda>h. if h = replicate 32 2 then Some block_A1 else None),
                 storage_CurrentHash := replicate 32 7,
                 storage_RevertToHash := (\<lambda>h n. h = replicate 32 1)\<rparr>"

text \<open>
  A node that starts on a storage left at some state, which it cannot bring to the state
  of the heaviest block.
\<close>

definition restart_env :: collaborators where
  "restart_env =
     example_env\<lparr>chain_GetHeaviestBlock := Some block_A2,
                 storage_CurrentHash := replicate 32 7,
                 storage_RevertToHash := (\<lambda>h n. False)\<rparr>"

text \<open>A storage that has moved on, and a miner that rewrites the Merkle hash.\<close>

definition moved_env :: collaborators where
  "moved_env = example_env\<lparr>storage_CurrentHash := replicate 32 7\<rparr>"

definition rewriting_env :: collaborators where
  "rewriting_env =
     example_env\<lparr>miner_Mine := (\<lambda>b n. (True, b\<lparr>merkle_hash := replicate 32 7\<rparr>))\<rparr>"

definition rewritten_block :: Block where
  "rewritten_block = block_A2\<lparr>merkle_hash := replicate 32 7, hash := replicate 32 9\<rparr>"

text \<open>A chain that knows the first block, and a configuration of eight lanes.\<close>

definition linked_env :: collaborators where
  "linked_env =
     example_env\<lparr>chain_GetBlock := (\<lambda>h. if h = replicate 32 2 then Some block_A1 else None)\<rparr>"

definition eight_lane_cfg :: config where
  "eight_lane_cfg = example_cfg\<lparr>num_lanes := 8\<rparr>"

text \<open>The second block with three transactions in two slices.\<close>

definition busy_block :: Block where
  "busy_block =
     block_A2\<lparr>slices := [[\<lparr>transaction_hash = replicate 32 4\<rparr>,
                          \<lparr>transaction_hash = replicate 32 8\<rparr>],
                         [\<lparr>transaction_hash = replicate 32 13\<rparr>]]\<rparr>"

text \<open>A storage that has the first of them only.\<close>

definition partial_env :: collaborators where
  "partial_env = example_env\<lparr>storage_HasTransaction := (\<lambda>d. d = replicate 32 4)\<rparr>"

text \<open>A status cache that throws at the second of them, and a sink that throws.\<close>

definition failing_cache_env :: collaborators where
  "failing_cache_env =
     example_env\<lparr>status_cache_Update :=
                   (\<lambda>d status. if d = replicate 32 8 then Threw else Returned ())\<rparr>"

definition failing_sink_env :: collaborators where
  "failing_sink_env = example_env\<lparr>sink_OnBlock := (\<lambda>b. Threw)\<rparr>"

text \<open>The second block as a candidate, once executed on the example storage and mined.\<close>

definition mined_block :: Block where
  "mined_block = block_A2\<lparr>merkle_hash := replicate 32 1, hash := replicate 32 9\<rparr>"

section \<open>Auxiliary lemmas\<close>

lemma current_block_coordinator_at: "current_block (coordinator_at b) = Some b"
  by (simp add: coordinator_at_def)

lemma pending_txs_coordinator_at: "pending_txs (coordinator_at b) = None"
  by (simp add: coordinator_at_def example_coordinator_def)

lemma next_block_producing_at: "next_block (producing_at b) = Some b"
  by (simp add: producing_at_def)

subsection \<open>The pending set\<close>

lemma set_tx_insert: "set (tx_insert d s) = insert d (set s)"
  by (auto simp: tx_insert_def)

lemma set_insert_slice: "set (insert_slice txs s) = transaction_hash ` set txs \<union> set s"
  by (induction txs arbitrary: s) (auto simp: set_tx_insert)

lemma set_insert_slices:
  "set (insert_slices sl s) = (\<Union>txs \<in> set sl. transaction_hash ` set txs) \<union> set s"
  by (induction sl arbitrary: s) (auto simp: set_insert_slice)

lemma erase_present_filter: "erase_present has s = filter (\<lambda>d. \<not> has d) s"
  by (induction s) auto

lemma set_erase_present: "set (erase_present has s) = {d \<in> set s. \<not> has d}"
  by (simp add: erase_present_filter)

subsection \<open>The status updates\<close>

text \<open>
  The loops update the digests in order, up to and including the first whose update
  throws, and report whether there was one.
\<close>

lemma update_slice_eq:
  "update_slice update txs =
     (map (\<lambda>d. StatusCacheUpdate d EXECUTED)
        (takeWhile (\<lambda>d. update d EXECUTED \<noteq> Threw) (map transaction_hash txs)
         @ take 1 (dropWhile (\<lambda>d. update d EXECUTED \<noteq> Threw) (map transaction_hash txs))),
      \<not> list_all (\<lambda>d. update d EXECUTED \<noteq> Threw) (map transaction_hash txs))"
  by (induction txs) (auto split: outcome.splits)

lemma update_slices_eq:
  "update_slices update sl =
     (map (\<lambda>d. StatusCacheUpdate d EXECUTED)
        (takeWhile (\<lambda>d. update d EXECUTED \<noteq> Threw) (concat (map (map transaction_hash) sl))
         @ take 1 (dropWhile (\<lambda>d. update d EXECUTED \<noteq> Threw)
                     (concat (map (map transaction_hash) sl)))),
      \<not> list_all (\<lambda>d. update d EXECUTED \<noteq> Threw) (concat (map (map transaction_hash) sl)))"
proof (induction sl)
  case Nil
  show ?case by simp
next
  case (Cons txs rest)
  define ds where "ds = map transaction_hash txs"
  define later where "later = concat (map (map transaction_hash) rest)"
  define returns where "returns = (\<lambda>d. update d EXECUTED \<noteq> Threw)"
  have c: "concat (map (map transaction_hash) (txs # rest)) = ds @ later"
    by (simp add: ds_def later_def)
  have s: "update_slice update txs =
             (map (\<lambda>d. StatusCacheUpdate d EXECUTED) (takeWhile returns ds @ take 1 (dropWhile returns ds)),
              \<not> list_all returns ds)"
    unfolding ds_def returns_def by (rule update_slice_eq)
  have r: "update_slices update rest =
             (map (\<lambda>d. StatusCacheUpdate d EXECUTED)
                (takeWhile returns later @ take 1 (dropWhile returns later)),
              \<not> list_all returns later)"
    unfolding later_def returns_def by (rule Cons.IH)
  show ?case
  proof (cases "list_all returns ds")
    case True
    then have a: "\<forall>d \<in> set ds. returns d"
      by (simp add: list_all_iff)
    then have t: "takeWhile returns ds = ds" and d: "dropWhile returns ds = []"
      by simp_all
    from a have "takeWhile returns (ds @ later) = ds @ takeWhile returns later"
      and "dropWhile returns (ds @ later) = dropWhile returns later"
      by (simp_all add: takeWhile_append2 dropWhile_append2)
    with True show ?thesis
      unfolding c returns_def [symmetric] by (simp add: s r t d)
  next
    case False
    then obtain x where x: "x \<in> set ds" "\<not> returns x"
      by (auto simp: list_all_iff)
    then have t: "takeWhile returns (ds @ later) = takeWhile returns ds"
      and d: "dropWhile returns (ds @ later) = dropWhile returns ds @ later"
      by (simp_all add: takeWhile_append1 dropWhile_append1)
    from x have "dropWhile returns ds \<noteq> []"
      by (auto simp: dropWhile_eq_Nil_conv)
    then obtain y ys where y: "dropWhile returns ds = y # ys"
      by (cases "dropWhile returns ds") auto
    from False show ?thesis
      unfolding c returns_def [symmetric] by (simp add: s t d y)
  qed
qed

lemma update_slices_returned:
  "update_slices (\<lambda>d status. Returned ()) sl =
     (map (\<lambda>d. StatusCacheUpdate d EXECUTED) (concat (map (map transaction_hash) sl)), False)"
proof -
  have a: "takeWhile (\<lambda>d. True) xs = xs" "dropWhile (\<lambda>d. True) xs = []" for xs :: "Digest list"
    by (induction xs) simp_all
  show ?thesis
    by (simp add: update_slices_eq list_all_iff a)
qed

lemma UpdateTxStatus_eq:
  "UpdateTxStatus b = map (\<lambda>d. StatusCacheUpdate d EXECUTED) (tx_digests b)"
  by (simp add: UpdateTxStatus_def update_slices_returned tx_digests_def)

lemma UpdateTxStatus_caught_calls:
  "x \<in> set (fst (UpdateTxStatus_caught env b)) \<Longrightarrow> \<exists>d. x = StatusCacheUpdate d EXECUTED"
  by (auto simp: UpdateTxStatus_caught_def update_slices_eq)

text \<open>The transmission, by the result of \<^verbatim>\<open>AddBlock\<close> and of the updates.\<close>

lemma OnTransmitBlock_eq:
  assumes "next_block c = Some nb"
  shows "OnTransmitBlock cfg env c =
     (if chain_AddBlock env nb = Returned ADDED
      then (if list_all (\<lambda>d. status_cache_Update env d EXECUTED \<noteq> Threw) (tx_digests nb)
            then Inr (RESET, c\<lparr>last_executed_block := hash nb\<rparr>,
                      AddBlock nb # map (\<lambda>d. StatusCacheUpdate d EXECUTED) (tx_digests nb)
                        @ [LastExecutedBlockSet (hash nb), OnBlock nb])
            else Inr (RESET, c,
                      AddBlock nb # map (\<lambda>d. StatusCacheUpdate d EXECUTED)
                        (takeWhile (\<lambda>d. status_cache_Update env d EXECUTED \<noteq> Threw) (tx_digests nb)
                         @ take 1 (dropWhile (\<lambda>d. status_cache_Update env d EXECUTED \<noteq> Threw)
                                     (tx_digests nb)))))
      else Inr (RESET, c, [AddBlock nb]))"
proof -
  define returns where "returns = (\<lambda>d. status_cache_Update env d EXECUTED \<noteq> Threw)"
  have u: "UpdateTxStatus_caught env nb =
             (map (\<lambda>d. StatusCacheUpdate d EXECUTED)
                (takeWhile returns (tx_digests nb) @ take 1 (dropWhile returns (tx_digests nb))),
              \<not> list_all returns (tx_digests nb))"
    by (simp add: UpdateTxStatus_caught_def update_slices_eq tx_digests_def returns_def)
  have a: "list_all returns ds \<Longrightarrow>
             takeWhile returns ds @ take (Suc 0) (dropWhile returns ds) = ds" for ds
    by (induction ds) simp_all
  show ?thesis
    unfolding returns_def [symmetric]
    by (auto simp: OnTransmitBlock_def assms u a split: outcome.splits simp del: map_append)
qed

subsection \<open>The lane count\<close>

lemma unat_shift_one_32:
  assumes n: "n < 32"
  shows "unat (ucast (push_bit n (1 :: 32 word)) :: 64 word) = 2 ^ n"
proof -
  have p: "(2::nat) ^ n < 2 ^ 32"
    by (rule power_strict_increasing) (use n in simp_all)
  have p64: "(2::nat) ^ n < 2 ^ 64"
    by (rule power_strict_increasing) (use n in simp_all)
  have "unat (push_bit n (1 :: 32 word)) = take_bit LENGTH(32) (push_bit n (unat (1 :: 32 word)))"
    by (rule unsigned_push_bit_eq)
  also have "\<dots> = take_bit 32 ((2::nat) ^ n)"
    by simp
  also have "\<dots> = 2 ^ n"
    using p by (simp only: take_bit_nat_eq_self)
  finally have u32: "unat (push_bit n (1 :: 32 word)) = 2 ^ n" .
  have "unat (ucast (push_bit n (1 :: 32 word)) :: 64 word)
          = take_bit LENGTH(64) (unat (push_bit n (1 :: 32 word)))"
    by (rule unsigned_ucast_eq)
  also have "\<dots> = take_bit 64 ((2::nat) ^ n)"
    by (simp only: u32) simp
  also have "\<dots> = 2 ^ n"
    using p64 by (simp only: take_bit_nat_eq_self)
  finally show ?thesis .
qed

lemma shift_one_eq_iff:
  assumes "shift_one n = Inr lanes"
  shows "(w = lanes) = (unat w = 2 ^ n)"
proof -
  from assms have n: "n < 32" and l: "lanes = ucast (push_bit n (1 :: 32 word))"
    by (auto simp: shift_one_def split: if_splits)
  have "unat lanes = 2 ^ n"
    using unat_shift_one_32 [OF n] l by simp
  then show ?thesis
    by (simp add: word_unat_eq_iff)
qed

subsection \<open>The two outcomes of the validation after execution\<close>

lemma OnPostExecBlockValidation_valid:
  assumes "current_block c = Some b"
    and "\<not> (GENESIS_DIGEST cfg \<noteq> previous_hash b \<and> storage_CurrentHash env \<noteq> merkle_hash b)"
  shows "OnPostExecBlockValidation cfg env c =
           Inr (RESET, c\<lparr>last_executed_block := hash b\<rparr>,
                UpdateTxStatus b @ [Commit (block_number b), LastExecutedBlockSet (hash b)])"
  using assms
  by (cases "GENESIS_DIGEST cfg = previous_hash b")
     (simp_all add: OnPostExecBlockValidation_def Let_def)

lemma OnPostExecBlockValidation_invalid:
  assumes "current_block c = Some b"
    and "GENESIS_DIGEST cfg \<noteq> previous_hash b" and "storage_CurrentHash env \<noteq> merkle_hash b"
  shows "OnPostExecBlockValidation cfg env c =
           Inr (RESET, c,
                (case chain_GetBlock env (previous_hash b) of
                   None \<Rightarrow>
                     [RevertToHash (GENESIS_MERKLE_ROOT cfg) 0,
                      SetLastProcessedBlock (GENESIS_DIGEST cfg)]
                 | Some p \<Rightarrow>
                     if storage_RevertToHash env (merkle_hash p) (block_number p)
                     then [RevertToHash (merkle_hash p) (block_number p),
                           SetLastProcessedBlock (hash p)]
                     else [RevertToHash (merkle_hash p) (block_number p),
                           RevertToHash (GENESIS_MERKLE_ROOT cfg) 0,
                           SetLastProcessedBlock (GENESIS_DIGEST cfg)])
                @ [RemoveBlock (hash b)])"
  using assms by (simp add: OnPostExecBlockValidation_def Let_def split: option.splits)

subsection \<open>Which handlers remove a block\<close>

lemma OnReloadState_no_remove:
  "OnReloadState cfg env c = Inr (st', c', calls) \<Longrightarrow> RemoveBlock d \<notin> set calls"
  by (auto simp: OnReloadState_def Let_def split: option.splits if_splits)

lemma OnSynchronizing_no_remove:
  "OnSynchronizing cfg env c = Inr (st', c', calls) \<Longrightarrow> RemoveBlock d \<notin> set calls"
  by (auto simp: OnSynchronizing_def Let_def split: option.splits if_splits)

lemma OnSynchronized_no_remove:
  "OnSynchronized cfg env c = Inr (st', c', calls) \<Longrightarrow> RemoveBlock d \<notin> set calls"
  by (auto simp: OnSynchronized_def Let_def split: option.splits if_splits)

lemma OnWaitForTransactions_no_remove:
  "OnWaitForTransactions cfg env c = Inr (st', c', calls) \<Longrightarrow> RemoveBlock d \<notin> set calls"
  by (auto simp: OnWaitForTransactions_def Let_def split: option.splits if_splits sum.splits)

lemma OnScheduleBlockExecution_no_remove:
  "OnScheduleBlockExecution cfg env c = Inr (st', c', calls) \<Longrightarrow> RemoveBlock d \<notin> set calls"
  by (auto simp: OnScheduleBlockExecution_def ScheduleCurrentBlock_def
      split: option.splits if_splits prod.splits bool.splits)

lemma OnWaitForExecution_no_remove:
  "OnWaitForExecution cfg env c = Inr (st', c', calls) \<Longrightarrow> RemoveBlock d \<notin> set calls"
  by (auto simp: OnWaitForExecution_def split: ExecutionStatus.splits if_splits)

lemma OnPackNewBlock_no_remove:
  "OnPackNewBlock cfg env c = Inr (st', c', calls) \<Longrightarrow> RemoveBlock d \<notin> set calls"
  by (auto simp: OnPackNewBlock_def split: option.splits outcome.splits)

lemma OnExecuteNewBlock_no_remove:
  "OnExecuteNewBlock cfg env c = Inr (st', c', calls) \<Longrightarrow> RemoveBlock d \<notin> set calls"
  by (auto simp: OnExecuteNewBlock_def ScheduleNextBlock_def
      split: option.splits if_splits prod.splits bool.splits)

lemma OnWaitForNewBlockExecution_no_remove:
  "OnWaitForNewBlockExecution cfg env c = Inr (st', c', calls) \<Longrightarrow> RemoveBlock d \<notin> set calls"
  by (auto simp: OnWaitForNewBlockExecution_def
      split: ExecutionStatus.splits if_splits option.splits)

lemma OnProofSearch_no_remove:
  "OnProofSearch cfg env c = Inr (st', c', calls) \<Longrightarrow> RemoveBlock d \<notin> set calls"
  by (auto simp: OnProofSearch_def Let_def split: option.splits prod.splits bool.splits)

lemma OnTransmitBlock_no_remove:
  "OnTransmitBlock cfg env c = Inr (st', c', calls) \<Longrightarrow> RemoveBlock d \<notin> set calls"
proof (cases "next_block c")
  case None
  assume "OnTransmitBlock cfg env c = Inr (st', c', calls)"
  with None show ?thesis by (simp add: OnTransmitBlock_def)
next
  case (Some nb)
  assume "OnTransmitBlock cfg env c = Inr (st', c', calls)"
  then show ?thesis
    unfolding OnTransmitBlock_eq [OF Some] by (auto split: if_splits)
qed

lemma OnReset_no_remove:
  "OnReset cfg env c = Inr (st', c', calls) \<Longrightarrow> RemoveBlock d \<notin> set calls"
  by (auto simp: OnReset_def)

lemmas no_remove =
  OnReloadState_no_remove OnSynchronizing_no_remove
  OnSynchronized_no_remove OnWaitForTransactions_no_remove
  OnScheduleBlockExecution_no_remove OnWaitForExecution_no_remove
  OnPackNewBlock_no_remove OnExecuteNewBlock_no_remove
  OnWaitForNewBlockExecution_no_remove OnProofSearch_no_remove
  OnTransmitBlock_no_remove OnReset_no_remove

lemma handler_no_remove:
  assumes "handler st cfg env c = Inr (st', c', calls)"
    and "st \<noteq> PRE_EXEC_BLOCK_VALIDATION" and "st \<noteq> POST_EXEC_BLOCK_VALIDATION"
  shows "RemoveBlock d \<notin> set calls"
  using assms by (cases st) (auto dest: no_remove)

lemma OnPreExecBlockValidation_remove:
  assumes "OnPreExecBlockValidation cfg env c = Inr (st', c', calls)"
    and "RemoveBlock d \<in> set calls"
  shows "\<exists>b. current_block c = Some b \<and> d = hash b \<and> pre_exec_check_failed cfg env b"
proof (cases "current_block c")
  case None
  with assms show ?thesis by (simp add: OnPreExecBlockValidation_def)
next
  case (Some b)
  show ?thesis
  proof (cases "shift_one (log2_num_lanes b)")
    case (Inl e)
    with assms Some show ?thesis
      by (auto simp: OnPreExecBlockValidation_def Let_def pre_exec_check_failed_def
          DIGEST_LENGTH_BYTES_def IDENTITY_LENGTH_BYTES_def
          split: option.splits if_splits)
  next
    case (Inr lanes)
    note eq = shift_one_eq_iff [OF Inr, of "num_lanes cfg"]
    from assms Some Inr eq show ?thesis
      by (auto simp: OnPreExecBlockValidation_def Let_def pre_exec_check_failed_def
          DIGEST_LENGTH_BYTES_def IDENTITY_LENGTH_BYTES_def
          split: option.splits if_splits)
  qed
qed

lemma OnPostExecBlockValidation_remove:
  assumes "OnPostExecBlockValidation cfg env c = Inr (st', c', calls)"
    and "RemoveBlock d \<in> set calls"
  shows "\<exists>b. current_block c = Some b \<and> d = hash b \<and> merkle_check_failed cfg env b"
proof (cases "current_block c")
  case None
  with assms show ?thesis by (simp add: OnPostExecBlockValidation_def)
next
  case (Some b)
  show ?thesis
  proof (cases "GENESIS_DIGEST cfg \<noteq> previous_hash b \<and> storage_CurrentHash env \<noteq> merkle_hash b")
    case False
    from OnPostExecBlockValidation_valid [OF Some False] assms
    show ?thesis by (auto simp: UpdateTxStatus_eq)
  next
    case True
    then have g: "GENESIS_DIGEST cfg \<noteq> previous_hash b"
      and m: "storage_CurrentHash env \<noteq> merkle_hash b" by simp_all
    from OnPostExecBlockValidation_invalid [OF Some g m] assms
    have "d = hash b" by (auto split: option.splits if_splits)
    with Some g m show ?thesis by (auto simp: merkle_check_failed_def)
  qed
qed

subsection \<open>Which handlers write the last executed block\<close>

lemma storage_hash_after_status:
  "storage_hash_after env cur (map (\<lambda>d. StatusCacheUpdate d EXECUTED) ds @ calls)
     = storage_hash_after env cur calls"
  by (induction ds) simp_all

lemma storage_hash_after_UpdateTxStatus:
  "storage_hash_after env cur (UpdateTxStatus b @ calls) = storage_hash_after env cur calls"
  unfolding UpdateTxStatus_eq by (rule storage_hash_after_status)

lemma LastExecutedBlockSet_notin_UpdateTxStatus:
  "LastExecutedBlockSet H \<notin> set (UpdateTxStatus b)"
  by (auto simp: UpdateTxStatus_eq)

lemma OnSynchronizing_no_set:
  "OnSynchronizing cfg env c = Inr (st', c', calls) \<Longrightarrow> LastExecutedBlockSet H \<notin> set calls"
  by (auto simp: OnSynchronizing_def Let_def split: option.splits if_splits)

lemma OnSynchronized_no_set:
  "OnSynchronized cfg env c = Inr (st', c', calls) \<Longrightarrow> LastExecutedBlockSet H \<notin> set calls"
  by (auto simp: OnSynchronized_def Let_def split: option.splits if_splits)

lemma OnPreExecBlockValidation_no_set:
  "OnPreExecBlockValidation cfg env c = Inr (st', c', calls) \<Longrightarrow> LastExecutedBlockSet H \<notin> set calls"
  by (auto simp: OnPreExecBlockValidation_def Let_def split: option.splits if_splits sum.splits)

lemma OnWaitForTransactions_no_set:
  "OnWaitForTransactions cfg env c = Inr (st', c', calls) \<Longrightarrow> LastExecutedBlockSet H \<notin> set calls"
  by (auto simp: OnWaitForTransactions_def Let_def split: option.splits if_splits sum.splits)

lemma OnScheduleBlockExecution_no_set:
  "OnScheduleBlockExecution cfg env c = Inr (st', c', calls) \<Longrightarrow> LastExecutedBlockSet H \<notin> set calls"
  by (auto simp: OnScheduleBlockExecution_def ScheduleCurrentBlock_def
      split: option.splits if_splits prod.splits bool.splits)

lemma OnWaitForExecution_no_set:
  "OnWaitForExecution cfg env c = Inr (st', c', calls) \<Longrightarrow> LastExecutedBlockSet H \<notin> set calls"
  by (auto simp: OnWaitForExecution_def split: ExecutionStatus.splits if_splits)

lemma OnPackNewBlock_no_set:
  "OnPackNewBlock cfg env c = Inr (st', c', calls) \<Longrightarrow> LastExecutedBlockSet H \<notin> set calls"
  by (auto simp: OnPackNewBlock_def split: option.splits outcome.splits)

lemma OnExecuteNewBlock_no_set:
  "OnExecuteNewBlock cfg env c = Inr (st', c', calls) \<Longrightarrow> LastExecutedBlockSet H \<notin> set calls"
  by (auto simp: OnExecuteNewBlock_def ScheduleNextBlock_def
      split: option.splits if_splits prod.splits bool.splits)

lemma OnWaitForNewBlockExecution_no_set:
  "OnWaitForNewBlockExecution cfg env c = Inr (st', c', calls) \<Longrightarrow> LastExecutedBlockSet H \<notin> set calls"
  by (auto simp: OnWaitForNewBlockExecution_def
      split: ExecutionStatus.splits if_splits option.splits)

lemma OnProofSearch_no_set:
  "OnProofSearch cfg env c = Inr (st', c', calls) \<Longrightarrow> LastExecutedBlockSet H \<notin> set calls"
  by (auto simp: OnProofSearch_def Let_def split: option.splits prod.splits bool.splits)

lemma OnReset_no_set:
  "OnReset cfg env c = Inr (st', c', calls) \<Longrightarrow> LastExecutedBlockSet H \<notin> set calls"
  by (auto simp: OnReset_def)

lemmas no_set =
  OnSynchronizing_no_set OnSynchronized_no_set OnPreExecBlockValidation_no_set
  OnWaitForTransactions_no_set OnScheduleBlockExecution_no_set OnWaitForExecution_no_set
  OnPackNewBlock_no_set OnExecuteNewBlock_no_set OnWaitForNewBlockExecution_no_set
  OnProofSearch_no_set OnReset_no_set

lemma handler_no_set:
  assumes "handler st cfg env c = Inr (st', c', calls)"
    and "st \<noteq> RELOAD_STATE" and "st \<noteq> POST_EXEC_BLOCK_VALIDATION" and "st \<noteq> TRANSMIT_BLOCK"
  shows "LastExecutedBlockSet H \<notin> set calls"
  using assms by (cases st) (auto dest: no_set)

lemma OnReloadState_set:
  assumes "OnReloadState cfg env c = Inr (st', c', calls)"
    and "LastExecutedBlockSet H \<in> set calls"
  shows "last_executed_block c' = H
       \<and> (\<exists>b. current_block c' = Some b \<and> hash b = H
             \<and> storage_hash_after env (storage_CurrentHash env) calls = merkle_hash b)"
  using assms
  by (auto simp: OnReloadState_def Let_def split: option.splits if_splits)

lemma OnPostExecBlockValidation_set:
  assumes "OnPostExecBlockValidation cfg env c = Inr (st', c', calls)"
    and "LastExecutedBlockSet H \<in> set calls"
  shows "last_executed_block c' = H
       \<and> (\<exists>b. current_block c = Some b \<and> hash b = H
             \<and> (previous_hash b = GENESIS_DIGEST cfg
                \<or> storage_hash_after env (storage_CurrentHash env) calls = merkle_hash b))"
proof (cases "current_block c")
  case None
  with assms show ?thesis by (simp add: OnPostExecBlockValidation_def)
next
  case (Some b)
  show ?thesis
  proof (cases "GENESIS_DIGEST cfg \<noteq> previous_hash b \<and> storage_CurrentHash env \<noteq> merkle_hash b")
    case False
    from OnPostExecBlockValidation_valid [OF Some False] assms False Some
    show ?thesis
      by (auto simp: storage_hash_after_UpdateTxStatus LastExecutedBlockSet_notin_UpdateTxStatus)
  next
    case True
    then have g: "GENESIS_DIGEST cfg \<noteq> previous_hash b"
      and m: "storage_CurrentHash env \<noteq> merkle_hash b" by simp_all
    from OnPostExecBlockValidation_invalid [OF Some g m] assms
    have False by (auto split: option.splits if_splits)
    then show ?thesis ..
  qed
qed

lemma OnTransmitBlock_set:
  assumes "OnTransmitBlock cfg env c = Inr (st', c', calls)"
    and "LastExecutedBlockSet H \<in> set calls"
  shows "last_executed_block c' = H
       \<and> (\<exists>nb. next_block c = Some nb \<and> hash nb = H \<and> chain_AddBlock env nb = Returned ADDED)"
proof (cases "next_block c")
  case None
  with assms show ?thesis by (simp add: OnTransmitBlock_def)
next
  case (Some nb)
  from assms show ?thesis
    unfolding OnTransmitBlock_eq [OF Some] by (auto simp: Some split: if_splits)
qed

lemma OnTransmitBlock_storage:
  assumes "OnTransmitBlock cfg env c = Inr (st', c', calls)"
  shows "storage_hash_after env cur calls = cur"
proof (cases "next_block c")
  case None
  with assms show ?thesis by (simp add: OnTransmitBlock_def)
next
  case (Some nb)
  have 1: "storage_hash_after env cur (map (\<lambda>d. StatusCacheUpdate d EXECUTED) ds) = cur" for ds
    using storage_hash_after_status [of env cur ds "[]"] by simp
  from assms show ?thesis
    unfolding OnTransmitBlock_eq [OF Some]
    by (auto simp: storage_hash_after_status 1 split: if_splits simp del: map_append)
qed

lemma Tick_set:
  assumes "Tick cfg env (st, c) = Inr ((st', c'), calls)"
    and "LastExecutedBlockSet H \<in> set calls"
  shows "last_executed_block c' = H
       \<and> ((st = RELOAD_STATE
            \<and> (\<exists>b. current_block c' = Some b \<and> hash b = H
                  \<and> storage_hash_after env (storage_CurrentHash env) calls = merkle_hash b))
          \<or> (st = POST_EXEC_BLOCK_VALIDATION
            \<and> (\<exists>b. current_block c = Some b \<and> hash b = H
                  \<and> (previous_hash b = GENESIS_DIGEST cfg
                     \<or> storage_hash_after env (storage_CurrentHash env) calls = merkle_hash b)))
          \<or> (st = TRANSMIT_BLOCK
            \<and> (\<exists>nb. next_block c = Some nb \<and> hash nb = H
                   \<and> chain_AddBlock env nb = Returned ADDED)))"
proof -
  from assms(1) have h: "handler st cfg env c = Inr (st', c', calls)"
    by (auto simp: Tick_def split: sum.splits)
  consider "st = RELOAD_STATE" | "st = POST_EXEC_BLOCK_VALIDATION" | "st = TRANSMIT_BLOCK"
    | "st \<noteq> RELOAD_STATE" "st \<noteq> POST_EXEC_BLOCK_VALIDATION" "st \<noteq> TRANSMIT_BLOCK"
    by blast
  then show ?thesis
  proof cases
    case 1
    with h assms(2) OnReloadState_set [of cfg env c st' c' calls H] show ?thesis by simp
  next
    case 2
    with h assms(2) OnPostExecBlockValidation_set [of cfg env c st' c' calls H]
    show ?thesis by simp
  next
    case 3
    with h assms(2) OnTransmitBlock_set [of cfg env c st' c' calls H] show ?thesis by simp
  next
    case 4
    with h assms(2) handler_no_set show ?thesis by blast
  qed
qed

subsection \<open>The variable changes only when it is written\<close>

lemma write_logged_Inl [simp]: "write_logged c (Inl e)"
  by (simp add: write_logged_def)

lemma write_logged_Inr [simp]:
  "write_logged c (Inr (st', c', calls)) =
     (last_executed_block c' = last_executed_block c
      \<or> LastExecutedBlockSet (last_executed_block c') \<in> set calls)"
  by (simp add: write_logged_def)

lemma OnReloadState_logged: "write_logged c (OnReloadState cfg env c)"
  by (simp add: OnReloadState_def Let_def split: option.splits)

lemma OnSynchronizing_logged: "write_logged c (OnSynchronizing cfg env c)"
proof -
  define c1 where "c1 = (if current_block c = None
                         then c\<lparr>current_block := chain_GetHeaviestBlock env\<rparr> else c)"
  have l: "last_executed_block c1 = last_executed_block c" by (simp add: c1_def)
  show ?thesis
  proof (cases "current_block c1")
    case None
    then show ?thesis
      unfolding OnSynchronizing_def c1_def [symmetric] by (simp add: Let_def)
  next
    case (Some b)
    then show ?thesis
      unfolding OnSynchronizing_def c1_def [symmetric]
      by (simp add: Let_def l split: option.splits)
  qed
qed

lemma OnSynchronized_logged: "write_logged c (OnSynchronized cfg env c)"
  by (simp add: OnSynchronized_def split: option.splits)

lemma OnPreExecBlockValidation_logged: "write_logged c (OnPreExecBlockValidation cfg env c)"
  by (simp add: OnPreExecBlockValidation_def Let_def split: option.splits sum.splits)

lemma OnWaitForTransactions_logged: "write_logged c (OnWaitForTransactions cfg env c)"
  by (simp add: OnWaitForTransactions_def Let_def split: option.splits sum.splits)

lemma OnScheduleBlockExecution_logged: "write_logged c (OnScheduleBlockExecution cfg env c)"
  by (simp add: OnScheduleBlockExecution_def split: prod.splits bool.splits)

lemma OnWaitForExecution_logged: "write_logged c (OnWaitForExecution cfg env c)"
  by (simp add: OnWaitForExecution_def split: ExecutionStatus.splits)

lemma OnPostExecBlockValidation_logged: "write_logged c (OnPostExecBlockValidation cfg env c)"
  by (simp add: OnPostExecBlockValidation_def Let_def split: option.splits prod.splits)

lemma OnPackNewBlock_logged: "write_logged c (OnPackNewBlock cfg env c)"
  by (simp add: OnPackNewBlock_def UpdateNextBlockTime_def split: option.splits outcome.splits)

lemma OnExecuteNewBlock_logged: "write_logged c (OnExecuteNewBlock cfg env c)"
  by (simp add: OnExecuteNewBlock_def split: prod.splits bool.splits)

lemma OnWaitForNewBlockExecution_logged: "write_logged c (OnWaitForNewBlockExecution cfg env c)"
  by (simp add: OnWaitForNewBlockExecution_def split: ExecutionStatus.splits option.splits)

lemma OnProofSearch_logged: "write_logged c (OnProofSearch cfg env c)"
  by (simp add: OnProofSearch_def Let_def split: option.splits prod.splits bool.splits)

lemma OnTransmitBlock_logged: "write_logged c (OnTransmitBlock cfg env c)"
  by (simp add: OnTransmitBlock_def split: option.splits outcome.splits prod.splits bool.splits)

lemma OnReset_logged: "write_logged c (OnReset cfg env c)"
  by (simp add: OnReset_def UpdateNextBlockTime_def)

lemma handler_logged: "write_logged c (handler st cfg env c)"
  by (cases st)
    (simp_all add: OnReloadState_logged OnSynchronizing_logged OnSynchronized_logged
      OnPreExecBlockValidation_logged OnWaitForTransactions_logged
      OnScheduleBlockExecution_logged OnWaitForExecution_logged
      OnPostExecBlockValidation_logged OnPackNewBlock_logged OnExecuteNewBlock_logged
      OnWaitForNewBlockExecution_logged OnProofSearch_logged OnTransmitBlock_logged
      OnReset_logged)

lemma Tick_logged:
  assumes "Tick cfg env (st, c) = Inr ((st', c'), calls)"
  shows "last_executed_block c' = last_executed_block c
         \<or> LastExecutedBlockSet (last_executed_block c') \<in> set calls"
proof -
  from assms have "handler st cfg env c = Inr (st', c', calls)"
    by (auto simp: Tick_def split: sum.splits)
  with handler_logged [of c st cfg env] show ?thesis by simp
qed

subsection \<open>The block references along a run\<close>

lemmas refs_defs = block_references_set_def reads_current_block_def reads_next_block_def

lemma keeps_references_Inl [simp]: "keeps_references (Inl e) = (e \<noteq> NullDereference)"
  by (simp add: keeps_references_def)

lemma keeps_references_Inr [simp]:
  "keeps_references (Inr (st', c', calls)) = block_references_set (st', c')"
  by (simp add: keeps_references_def)

lemma OnReloadState_refs:
  assumes "chain_GetHeaviestBlock env \<noteq> None"
  shows "keeps_references (OnReloadState cfg env c)"
  using assms
  by (auto simp: OnReloadState_def Let_def refs_defs split: option.splits)

lemma OnSynchronizing_refs:
  assumes "chain_GetHeaviestBlock env \<noteq> None"
  shows "keeps_references (OnSynchronizing cfg env c)"
proof -
  define c1 where "c1 = (if current_block c = None
                then c\<lparr>current_block := chain_GetHeaviestBlock env\<rparr> else c)"
  from assms obtain b where b: "current_block c1 = Some b"
    by (cases "current_block c") (auto simp: c1_def)
  show ?thesis
    unfolding OnSynchronizing_def c1_def [symmetric]
    by (simp add: b Let_def refs_defs split: option.splits)
qed

lemma OnSynchronized_refs:
  assumes "current_block c \<noteq> None"
  shows "keeps_references (OnSynchronized cfg env c)"
  using assms
  by (auto simp: OnSynchronized_def Let_def refs_defs split: option.splits)

lemma OnPreExecBlockValidation_refs:
  assumes "current_block c \<noteq> None"
  shows "keeps_references (OnPreExecBlockValidation cfg env c)"
  using assms
  by (auto simp: OnPreExecBlockValidation_def Let_def refs_defs shift_one_def
      split: option.splits)

lemma OnWaitForTransactions_refs:
  assumes "current_block c \<noteq> None"
  shows "keeps_references (OnWaitForTransactions cfg env c)"
  using assms
  by (auto simp: OnWaitForTransactions_def Let_def refs_defs split: option.splits)

lemma OnScheduleBlockExecution_refs:
  "keeps_references (OnScheduleBlockExecution cfg env c)"
  by (auto simp: OnScheduleBlockExecution_def ScheduleCurrentBlock_def refs_defs
      split: option.splits bool.splits)

lemma OnWaitForExecution_refs:
  assumes "current_block c \<noteq> None"
  shows "keeps_references (OnWaitForExecution cfg env c)"
  using assms
  by (auto simp: OnWaitForExecution_def refs_defs split: ExecutionStatus.splits)

lemma OnPostExecBlockValidation_refs:
  assumes "current_block c \<noteq> None"
  shows "keeps_references (OnPostExecBlockValidation cfg env c)"
proof -
  from assms obtain b where b: "current_block c = Some b" by auto
  show ?thesis
  proof (cases "GENESIS_DIGEST cfg \<noteq> previous_hash b \<and> storage_CurrentHash env \<noteq> merkle_hash b")
    case False
    from OnPostExecBlockValidation_valid [OF b False] show ?thesis
      by (simp add: refs_defs)
  next
    case True
    then have g: "GENESIS_DIGEST cfg \<noteq> previous_hash b"
      and m: "storage_CurrentHash env \<noteq> merkle_hash b" by simp_all
    from OnPostExecBlockValidation_invalid [OF b g m] show ?thesis
      by (simp add: refs_defs)
  qed
qed

lemma OnPackNewBlock_refs:
  assumes "next_block c \<noteq> None"
  shows "keeps_references (OnPackNewBlock cfg env c)"
  using assms
  by (auto simp: OnPackNewBlock_def UpdateNextBlockTime_def refs_defs
      split: option.splits outcome.splits)

lemma OnExecuteNewBlock_refs:
  assumes "next_block c \<noteq> None"
  shows "keeps_references (OnExecuteNewBlock cfg env c)"
  using assms
  by (auto simp: OnExecuteNewBlock_def ScheduleNextBlock_def refs_defs
      split: option.splits bool.splits)

lemma OnWaitForNewBlockExecution_refs:
  assumes "next_block c \<noteq> None"
  shows "keeps_references (OnWaitForNewBlockExecution cfg env c)"
  using assms
  by (auto simp: OnWaitForNewBlockExecution_def refs_defs
      split: ExecutionStatus.splits option.splits)

lemma OnProofSearch_refs:
  assumes "next_block c \<noteq> None"
  shows "keeps_references (OnProofSearch cfg env c)"
  using assms
  by (auto simp: OnProofSearch_def Let_def refs_defs
      split: option.splits prod.splits bool.splits)

lemma OnTransmitBlock_refs:
  assumes "next_block c \<noteq> None"
  shows "keeps_references (OnTransmitBlock cfg env c)"
  using assms
  by (auto simp: OnTransmitBlock_def refs_defs
      split: option.splits outcome.splits prod.splits bool.splits)

lemma OnReset_refs: "keeps_references (OnReset cfg env c)"
  by (simp add: OnReset_def refs_defs)

lemma handler_refs:
  assumes "block_references_set (st, c)" and "chain_GetHeaviestBlock env \<noteq> None"
  shows "keeps_references (handler st cfg env c)"
proof (cases st)
  case RELOAD_STATE
  with OnReloadState_refs [OF assms(2)] show ?thesis by simp
next
  case SYNCHRONIZING
  with OnSynchronizing_refs [OF assms(2)] show ?thesis by simp
next
  case SYNCHRONIZED
  with assms(1) have "current_block c \<noteq> None" by (simp add: refs_defs)
  from OnSynchronized_refs [OF this] SYNCHRONIZED show ?thesis by simp
next
  case PRE_EXEC_BLOCK_VALIDATION
  with assms(1) have "current_block c \<noteq> None" by (simp add: refs_defs)
  from OnPreExecBlockValidation_refs [OF this] PRE_EXEC_BLOCK_VALIDATION show ?thesis by simp
next
  case WAIT_FOR_TRANSACTIONS
  with assms(1) have "current_block c \<noteq> None" by (simp add: refs_defs)
  from OnWaitForTransactions_refs [OF this] WAIT_FOR_TRANSACTIONS show ?thesis by simp
next
  case SCHEDULE_BLOCK_EXECUTION
  with OnScheduleBlockExecution_refs show ?thesis by simp
next
  case WAIT_FOR_EXECUTION
  with assms(1) have "current_block c \<noteq> None" by (simp add: refs_defs)
  from OnWaitForExecution_refs [OF this] WAIT_FOR_EXECUTION show ?thesis by simp
next
  case POST_EXEC_BLOCK_VALIDATION
  with assms(1) have "current_block c \<noteq> None" by (simp add: refs_defs)
  from OnPostExecBlockValidation_refs [OF this] POST_EXEC_BLOCK_VALIDATION show ?thesis by simp
next
  case PACK_NEW_BLOCK
  with assms(1) have "next_block c \<noteq> None" by (simp add: refs_defs)
  from OnPackNewBlock_refs [OF this] PACK_NEW_BLOCK show ?thesis by simp
next
  case EXECUTE_NEW_BLOCK
  with assms(1) have "next_block c \<noteq> None" by (simp add: refs_defs)
  from OnExecuteNewBlock_refs [OF this] EXECUTE_NEW_BLOCK show ?thesis by simp
next
  case WAIT_FOR_NEW_BLOCK_EXECUTION
  with assms(1) have "next_block c \<noteq> None" by (simp add: refs_defs)
  from OnWaitForNewBlockExecution_refs [OF this] WAIT_FOR_NEW_BLOCK_EXECUTION
  show ?thesis by simp
next
  case PROOF_SEARCH
  with assms(1) have "next_block c \<noteq> None" by (simp add: refs_defs)
  from OnProofSearch_refs [OF this] PROOF_SEARCH show ?thesis by simp
next
  case TRANSMIT_BLOCK
  with assms(1) have "next_block c \<noteq> None" by (simp add: refs_defs)
  from OnTransmitBlock_refs [OF this] TRANSMIT_BLOCK show ?thesis by simp
next
  case RESET
  with OnReset_refs show ?thesis by simp
qed

lemma Tick_refs:
  assumes "block_references_set m" and "chain_GetHeaviestBlock env \<noteq> None"
  shows "Tick cfg env m \<noteq> Inl NullDereference
       \<and> (Tick cfg env m = Inr (m', calls) \<longrightarrow> block_references_set m')"
proof -
  obtain st c where m: "m = (st, c)" by (cases m)
  from handler_refs [OF assms(1) [unfolded m] assms(2), of cfg] show ?thesis
    by (cases "handler st cfg env c") (auto simp: Tick_def m)
qed

lemma TriggerBlockGeneration_blocks:
  "current_block (TriggerBlockGeneration env c) = current_block c"
  "next_block (TriggerBlockGeneration env c) = next_block c"
  by (simp_all add: TriggerBlockGeneration_def)

lemma apply_event_refs:
  assumes "block_references_set m" and "heaviest_block_known ev"
  shows "apply_event cfg ev m \<noteq> Inl NullDereference
       \<and> (apply_event cfg ev m = Inr m' \<longrightarrow> block_references_set m')"
proof (cases ev)
  case (TickEvent env)
  with assms(2) have h: "chain_GetHeaviestBlock env \<noteq> None" by simp
  show ?thesis
  proof (cases "Tick cfg env m")
    case (Inl e)
    with Tick_refs [OF assms(1) h, of cfg] have "e \<noteq> NullDereference" by simp
    with Inl TickEvent show ?thesis by simp
  next
    case (Inr r)
    obtain m1 calls where r: "r = (m1, calls)" by (cases r)
    from Tick_refs [OF assms(1) h, of cfg m1 calls] Inr r
    have "block_references_set m1" by simp
    with Inr r TickEvent show ?thesis by clarsimp
  qed
next
  case (TriggerBlockGenerationEvent env)
  from assms(1) have "block_references_set (fst m, TriggerBlockGeneration env (snd m))"
    by (simp add: block_references_set_def TriggerBlockGeneration_blocks)
  with TriggerBlockGenerationEvent show ?thesis by clarsimp
qed

lemma run_refs:
  assumes "block_references_set m" and "\<forall>ev \<in> set evs. heaviest_block_known ev"
  shows "run cfg evs m \<noteq> Inl NullDereference
       \<and> (run cfg evs m = Inr m' \<longrightarrow> block_references_set m')"
  using assms
proof (induction evs arbitrary: m)
  case Nil
  then show ?case by auto
next
  case (Cons ev evs)
  from Cons.prems have k: "heaviest_block_known ev" "\<forall>ev \<in> set evs. heaviest_block_known ev"
    by simp_all
  show ?case
  proof (cases "apply_event cfg ev m")
    case (Inl e)
    with apply_event_refs [OF Cons.prems(1) k(1), of cfg] show ?thesis by auto
  next
    case (Inr m1)
    with apply_event_refs [OF Cons.prems(1) k(1), of cfg m1]
    have "block_references_set m1" by simp
    from Cons.IH [OF this k(2)] Inr show ?thesis by simp
  qed
qed

subsection \<open>The Merkle hash of the candidate block\<close>

lemma keeps_candidate_Inl [simp]: "keeps_candidate S (Inl e)"
  by (simp add: keeps_candidate_def)

lemma keeps_candidate_Inr [simp]:
  "keeps_candidate S (Inr (st', c', calls)) = candidate_merkle S (st', c')"
  by (simp add: keeps_candidate_def)

lemma OnReloadState_candidate: "keeps_candidate S (OnReloadState cfg env c)"
  by (simp add: OnReloadState_def Let_def candidate_merkle_def split: option.splits)

lemma OnSynchronizing_candidate: "keeps_candidate S (OnSynchronizing cfg env c)"
proof -
  define c1 where "c1 = (if current_block c = None
                then c\<lparr>current_block := chain_GetHeaviestBlock env\<rparr> else c)"
  show ?thesis
  proof (cases "current_block c1")
    case None
    then show ?thesis
      unfolding OnSynchronizing_def c1_def [symmetric] by (simp add: Let_def)
  next
    case (Some b)
    then show ?thesis
      unfolding OnSynchronizing_def c1_def [symmetric]
      by (simp add: Let_def candidate_merkle_def split: option.splits)
  qed
qed

lemma OnSynchronized_candidate: "keeps_candidate S (OnSynchronized cfg env c)"
  by (simp add: OnSynchronized_def Let_def candidate_merkle_def split: option.splits)

lemma OnPreExecBlockValidation_candidate:
  "keeps_candidate S (OnPreExecBlockValidation cfg env c)"
  by (simp add: OnPreExecBlockValidation_def Let_def candidate_merkle_def
      split: option.splits sum.splits)

lemma OnWaitForTransactions_candidate: "keeps_candidate S (OnWaitForTransactions cfg env c)"
  by (simp add: OnWaitForTransactions_def Let_def candidate_merkle_def
      split: option.splits sum.splits)

lemma OnScheduleBlockExecution_candidate:
  "keeps_candidate S (OnScheduleBlockExecution cfg env c)"
  by (simp add: OnScheduleBlockExecution_def ScheduleCurrentBlock_def candidate_merkle_def
      split: option.splits bool.splits)

lemma OnWaitForExecution_candidate: "keeps_candidate S (OnWaitForExecution cfg env c)"
  by (simp add: OnWaitForExecution_def candidate_merkle_def split: ExecutionStatus.splits)

lemma OnPostExecBlockValidation_candidate:
  "keeps_candidate S (OnPostExecBlockValidation cfg env c)"
proof (cases "current_block c")
  case None
  then show ?thesis by (simp add: OnPostExecBlockValidation_def)
next
  case (Some b)
  show ?thesis
  proof (cases "GENESIS_DIGEST cfg \<noteq> previous_hash b \<and> storage_CurrentHash env \<noteq> merkle_hash b")
    case False
    from OnPostExecBlockValidation_valid [OF Some False] show ?thesis
      by (simp add: candidate_merkle_def)
  next
    case True
    then have g: "GENESIS_DIGEST cfg \<noteq> previous_hash b"
      and m: "storage_CurrentHash env \<noteq> merkle_hash b" by simp_all
    from OnPostExecBlockValidation_invalid [OF Some g m] show ?thesis
      by (simp add: candidate_merkle_def)
  qed
qed

lemma OnPackNewBlock_candidate: "keeps_candidate S (OnPackNewBlock cfg env c)"
  by (simp add: OnPackNewBlock_def candidate_merkle_def split: option.splits outcome.splits)

lemma OnExecuteNewBlock_candidate: "keeps_candidate S (OnExecuteNewBlock cfg env c)"
  by (simp add: OnExecuteNewBlock_def ScheduleNextBlock_def candidate_merkle_def
      split: option.splits bool.splits)

lemma OnWaitForNewBlockExecution_candidate:
  assumes "storage_CurrentHash env = S"
  shows "keeps_candidate S (OnWaitForNewBlockExecution cfg env c)"
  using assms
  by (simp add: OnWaitForNewBlockExecution_def candidate_merkle_def
      split: ExecutionStatus.splits option.splits)

lemma OnProofSearch_candidate:
  assumes "candidate_merkle S (PROOF_SEARCH, c)"
    and "\<forall>b n. merkle_hash (snd (miner_Mine env b n)) = merkle_hash b"
  shows "keeps_candidate S (OnProofSearch cfg env c)"
proof (cases "next_block c")
  case None
  then show ?thesis by (simp add: OnProofSearch_def)
next
  case (Some nb)
  with assms(1) have m: "merkle_hash nb = S" by (simp add: candidate_merkle_def)
  obtain found mined where r: "miner_Mine env nb 100 = (found, mined)"
    by (cases "miner_Mine env nb 100")
  with assms(2) [rule_format, of nb 100] m have "merkle_hash mined = S" by simp
  with Some r show ?thesis
    by (cases found) (simp_all add: OnProofSearch_def candidate_merkle_def UpdateDigest_def)
qed

lemma OnTransmitBlock_candidate: "keeps_candidate S (OnTransmitBlock cfg env c)"
  by (simp add: OnTransmitBlock_def candidate_merkle_def
      split: option.splits outcome.splits prod.splits bool.splits)

lemma OnReset_candidate: "keeps_candidate S (OnReset cfg env c)"
  by (simp add: OnReset_def candidate_merkle_def)

lemma handler_candidate:
  assumes "candidate_merkle S (st, c)" and "storage_CurrentHash env = S"
    and "\<forall>b n. merkle_hash (snd (miner_Mine env b n)) = merkle_hash b"
  shows "keeps_candidate S (handler st cfg env c)"
proof (cases st)
  case WAIT_FOR_NEW_BLOCK_EXECUTION
  with OnWaitForNewBlockExecution_candidate [OF assms(2)] show ?thesis by simp
next
  case PROOF_SEARCH
  with OnProofSearch_candidate [OF assms(1) [unfolded PROOF_SEARCH] assms(3)] show ?thesis
    by simp
qed (simp_all add: OnReloadState_candidate OnSynchronizing_candidate OnSynchronized_candidate
      OnPreExecBlockValidation_candidate OnWaitForTransactions_candidate
      OnScheduleBlockExecution_candidate OnWaitForExecution_candidate
      OnPostExecBlockValidation_candidate OnPackNewBlock_candidate OnExecuteNewBlock_candidate
      OnTransmitBlock_candidate OnReset_candidate)

lemma apply_event_candidate:
  assumes "candidate_merkle S m" and "storage_stays S ev" and "apply_event cfg ev m = Inr m'"
  shows "candidate_merkle S m'"
proof (cases ev)
  case (TickEvent env)
  obtain st c where m: "m = (st, c)" by (cases m)
  from assms(2) TickEvent have e: "storage_CurrentHash env = S"
    "\<forall>b n. merkle_hash (snd (miner_Mine env b n)) = merkle_hash b" by simp_all
  note k = handler_candidate [OF assms(1) [unfolded m] e, of cfg]
  show ?thesis
  proof (cases "handler st cfg env c")
    case (Inl e)
    with assms(3) TickEvent m show ?thesis by (simp add: Tick_def)
  next
    case (Inr r)
    obtain st' c' calls where r: "r = (st', c', calls)" by (cases r)
    from k Inr r have "candidate_merkle S (st', c')" by simp
    moreover from assms(3) TickEvent m Inr r have "m' = (st', c')" by (simp add: Tick_def)
    ultimately show ?thesis by simp
  qed
next
  case (TriggerBlockGenerationEvent env)
  with assms(3) have "m' = (fst m, TriggerBlockGeneration env (snd m))" by simp
  with assms(1) show ?thesis
    by (simp add: candidate_merkle_def TriggerBlockGeneration_blocks)
qed

lemma run_candidate:
  assumes "candidate_merkle S m" and "\<forall>ev \<in> set evs. storage_stays S ev"
    and "run cfg evs m = Inr m'"
  shows "candidate_merkle S m'"
  using assms
proof (induction evs arbitrary: m)
  case Nil
  then show ?case by simp
next
  case (Cons ev evs)
  from Cons.prems(2) have k: "storage_stays S ev" "\<forall>ev \<in> set evs. storage_stays S ev"
    by simp_all
  show ?case
  proof (cases "apply_event cfg ev m")
    case (Inl e)
    with Cons.prems(3) show ?thesis by simp
  next
    case (Inr m1)
    from apply_event_candidate [OF Cons.prems(1) k(1) Inr]
    have "candidate_merkle S m1" .
    from Cons.IH [OF this k(2)] Cons.prems(3) Inr show ?thesis by simp
  qed
qed

lemma transmit_after_candidate:
  assumes "\<forall>ev \<in> set evs. storage_stays S ev"
    and "fst m0 \<noteq> PROOF_SEARCH" and "fst m0 \<noteq> TRANSMIT_BLOCK"
    and "run cfg evs m0 = Inr (TRANSMIT_BLOCK, c)"
    and "storage_CurrentHash env = S"
    and "Tick cfg env (TRANSMIT_BLOCK, c) = Inr ((st', c'), calls)"
    and "LastExecutedBlockSet H \<in> set calls"
  shows "\<exists>nb. next_block c = Some nb \<and> hash nb = H
           \<and> storage_hash_after env (storage_CurrentHash env) calls = merkle_hash nb"
proof -
  from assms(2,3) have "candidate_merkle S m0" by (simp add: candidate_merkle_def)
  from run_candidate [OF this assms(1,4)]
  obtain nb where nb: "next_block c = Some nb" "merkle_hash nb = S"
    by (auto simp: candidate_merkle_def split: option.splits)
  from assms(6) have h: "OnTransmitBlock cfg env c = Inr (st', c', calls)"
    by (auto simp: Tick_def split: sum.splits)
  from OnTransmitBlock_set [OF h assms(7)] nb have H: "hash nb = H" by simp
  from OnTransmitBlock_storage [OF h]
  have "storage_hash_after env (storage_CurrentHash env) calls = S"
    by (simp add: assms(5))
  with nb H show ?thesis by simp
qed

subsection \<open>The chain store as modelled meets the interface contract\<close>





subsection \<open>The path read by the synchronisation\<close>





lemma walk_post_Inl [simp]:
  "walk_post cfg env st (Inl e) = (e = OutOfBounds \<longrightarrow> st = SYNCHRONIZING)"
  by (simp add: walk_post_def)

lemma walk_post_Inr [simp]:
  "walk_post cfg env st (Inr (st', c', calls)) =
     (st' = SYNCHRONIZING \<and> current_block c' \<noteq> None \<longrightarrow>
      st = SYNCHRONIZING \<and> exec_LastProcessedBlock env = GENESIS_DIGEST cfg)"
  by (simp add: walk_post_def)







subsection \<open>The examples\<close>

lemma path_behind:
  "store_GetPathToCommonAncestor two_block_store (hash block_A1) (hash block_A2) = Some [block_A1]"
  by code_simp

lemma example_run:
  "run example_cfg [TickEvent heaviest_env, TickEvent heaviest_env, TickEvent heaviest_env]
     (RELOAD_STATE, example_coordinator)
   = Inr (PRE_EXEC_BLOCK_VALIDATION,
          example_coordinator\<lparr>current_block := Some block_A1, next_block_time := 110\<rparr>)"
proof -
  have g: "GENESIS_DIGEST example_cfg = replicate 32 0"
    "previous_hash block_A1 = replicate 32 0"
    "exec_LastProcessedBlock heaviest_env = replicate 32 0"
    by (simp_all add: example_cfg_def block_A1_def heaviest_env_def example_env_def)
  have h: "chain_GetHeaviestBlock heaviest_env = Some block_A1" "clock_now heaviest_env = 100"
    by (simp_all add: heaviest_env_def example_env_def)
  have c: "current_block example_coordinator = None" "block_period example_coordinator = 10"
    by (simp_all add: example_coordinator_def)
  have 1: "Tick example_cfg heaviest_env (RELOAD_STATE, example_coordinator)
      = Inr ((RESET, example_coordinator\<lparr>current_block := Some block_A1\<rparr>), [])"
    by (simp add: Tick_def OnReloadState_def g h c)
  have 2: "Tick example_cfg heaviest_env (RESET, example_coordinator\<lparr>current_block := Some block_A1\<rparr>)
      = Inr ((SYNCHRONIZING, example_coordinator\<lparr>next_block_time := 110\<rparr>), [])"
    by (simp add: Tick_def OnReset_def UpdateNextBlockTime_def h c example_coordinator_def)
  have 3: "Tick example_cfg heaviest_env (SYNCHRONIZING, example_coordinator\<lparr>next_block_time := 110\<rparr>)
      = Inr ((PRE_EXEC_BLOCK_VALIDATION,
              example_coordinator\<lparr>current_block := Some block_A1, next_block_time := 110\<rparr>), [])"
    by (simp add: Tick_def OnSynchronizing_def Let_def g h c)
  show ?thesis by (simp add: 1 2 3)
qed

lemma mined_run:
  "run example_cfg [TickEvent example_env, TickEvent example_env]
     (WAIT_FOR_NEW_BLOCK_EXECUTION, producing_at block_A2)
   = Inr (TRANSMIT_BLOCK, producing_at mined_block)"
proof -
  have e: "exec_GetState example_env = IDLE" "storage_CurrentHash example_env = replicate 32 1"
    "miner_Mine example_env = (\<lambda>b n. (True, b))"
    "block_digest example_env = (\<lambda>b. replicate 32 9)"
    by (simp_all add: example_env_def)
  have 1: "Tick example_cfg example_env (WAIT_FOR_NEW_BLOCK_EXECUTION, producing_at block_A2)
      = Inr ((PROOF_SEARCH, producing_at (block_A2\<lparr>merkle_hash := replicate 32 1\<rparr>)),
             [Commit (block_number block_A2)])"
    by (simp add: Tick_def OnWaitForNewBlockExecution_def QueryExecutorStatus_def e
        next_block_producing_at producing_at_def)
  have 2: "Tick example_cfg example_env
             (PROOF_SEARCH, producing_at (block_A2\<lparr>merkle_hash := replicate 32 1\<rparr>))
      = Inr ((TRANSMIT_BLOCK, producing_at mined_block),
             [SetLastProcessedBlock (hash mined_block)])"
    by (simp add: Tick_def OnProofSearch_def UpdateDigest_def e Let_def
        next_block_producing_at producing_at_def mined_block_def)
  show ?thesis by (simp add: 1 2)
qed

lemma mined_transmit:
  "Tick example_cfg example_env (TRANSMIT_BLOCK, producing_at mined_block)
      = Inr ((RESET, (producing_at mined_block)\<lparr>last_executed_block := hash mined_block\<rparr>),
             [AddBlock mined_block, StatusCacheUpdate (replicate 32 8) EXECUTED,
              LastExecutedBlockSet (hash mined_block), OnBlock mined_block])"
proof -
  have e: "chain_AddBlock example_env = (\<lambda>b. Returned ADDED)"
    "sink_OnBlock example_env = (\<lambda>b. Returned ())"
    by (simp_all add: example_env_def)
  have u: "UpdateTxStatus_caught example_env mined_block
             = ([StatusCacheUpdate (replicate 32 8) EXECUTED], False)"
    by (simp add: UpdateTxStatus_caught_def example_env_def mined_block_def block_A2_def)
  show ?thesis
    by (simp add: Tick_def OnTransmitBlock_def e u next_block_producing_at)
qed

lemma fork_path:
  "store_GetPathToCommonAncestor fork_store (replicate 32 14) (replicate 32 11)
     = Some [block_B2, block_A1]"
  by code_simp

lemma fork_synchronizing:
  "Tick example_cfg fork_env (SYNCHRONIZING, executed_at block_A3)
     = Inr ((PRE_EXEC_BLOCK_VALIDATION, (executed_at block_A3)\<lparr>current_block := Some block_B2\<rparr>),
            [RevertToHash (replicate 32 3) 1])"
proof -
  have e: "chain_GetHeaviestBlock fork_env = Some block_B2"
    "exec_LastProcessedBlock fork_env = replicate 32 11"
    "chain_GetPathToCommonAncestor fork_env = store_GetPathToCommonAncestor fork_store"
    "storage_HashExists fork_env = (\<lambda>h n. h = replicate 32 3)"
    "storage_RevertToHash fork_env = (\<lambda>h n. h = replicate 32 3)"
    by (simp_all add: fork_env_def)
  have b: "hash block_B2 = replicate 32 14" "merkle_hash block_A1 = replicate 32 3"
    "block_number block_A1 = 1" "GENESIS_DIGEST example_cfg = replicate 32 0"
    by (simp_all add: block_B2_def block_A1_def example_cfg_def)
  have c: "current_block (executed_at block_A3) = None"
    by (simp add: executed_at_def example_coordinator_def)
  show ?thesis
    by (simp add: Tick_def OnSynchronizing_def Let_def e b c fork_path)
qed

lemma diverged_post_exec:
  "Tick example_cfg diverged_env
     (POST_EXEC_BLOCK_VALIDATION, (coordinator_at block_A2)\<lparr>last_executed_block := hash block_A1\<rparr>)
     = Inr ((RESET, (coordinator_at block_A2)\<lparr>last_executed_block := hash block_A1\<rparr>),
            [RevertToHash (replicate 32 3) 1, RevertToHash (replicate 32 1) 0,
             SetLastProcessedBlock (replicate 32 0), RemoveBlock (hash block_A2)])"
proof -
  have e: "chain_GetBlock diverged_env (replicate 32 2) = Some block_A1"
    "storage_CurrentHash diverged_env = replicate 32 7"
    "storage_RevertToHash diverged_env = (\<lambda>h n. h = replicate 32 1)"
    by (simp_all add: diverged_env_def)
  have b: "previous_hash block_A2 = replicate 32 2" "merkle_hash block_A2 = replicate 32 6"
    "merkle_hash block_A1 = replicate 32 3" "block_number block_A1 = 1"
    "GENESIS_DIGEST example_cfg = replicate 32 0"
    "GENESIS_MERKLE_ROOT example_cfg = replicate 32 1"
    by (simp_all add: block_A1_def block_A2_def example_cfg_def)
  have c: "current_block ((coordinator_at block_A2)\<lparr>last_executed_block := hash block_A1\<rparr>)
             = Some block_A2"
    by (simp add: coordinator_at_def)
  show ?thesis
    by (simp add: Tick_def OnPostExecBlockValidation_def Let_def e b c)
qed

lemma restart_reload:
  "Tick example_cfg restart_env (RELOAD_STATE, example_coordinator)
     = Inr ((RESET, example_coordinator\<lparr>current_block := Some block_A2\<rparr>),
            [RevertToHash (replicate 32 6) 2])"
proof -
  have e: "chain_GetHeaviestBlock restart_env = Some block_A2"
    "storage_RevertToHash restart_env = (\<lambda>h n. False)"
    by (simp_all add: restart_env_def)
  have b: "previous_hash block_A2 = replicate 32 2" "merkle_hash block_A2 = replicate 32 6"
    "block_number block_A2 = 2" "GENESIS_DIGEST example_cfg = replicate 32 0"
    by (simp_all add: block_A2_def example_cfg_def)
  have c: "current_block example_coordinator = None"
    by (simp add: example_coordinator_def)
  show ?thesis
    by (simp add: Tick_def OnReloadState_def Let_def e b c)
qed

lemma moved_transmit:
  "Tick example_cfg moved_env (TRANSMIT_BLOCK, producing_at mined_block)
      = Inr ((RESET, (producing_at mined_block)\<lparr>last_executed_block := hash mined_block\<rparr>),
             [AddBlock mined_block, StatusCacheUpdate (replicate 32 8) EXECUTED,
              LastExecutedBlockSet (hash mined_block), OnBlock mined_block])"
proof -
  have e: "chain_AddBlock moved_env = (\<lambda>b. Returned ADDED)"
    "sink_OnBlock moved_env = (\<lambda>b. Returned ())"
    by (simp_all add: moved_env_def example_env_def)
  have u: "UpdateTxStatus_caught moved_env mined_block
             = ([StatusCacheUpdate (replicate 32 8) EXECUTED], False)"
    by (simp add: UpdateTxStatus_caught_def moved_env_def example_env_def mined_block_def
        block_A2_def)
  show ?thesis
    by (simp add: Tick_def OnTransmitBlock_def e u next_block_producing_at)
qed

lemma rewritten_run:
  "run example_cfg [TickEvent example_env, TickEvent rewriting_env]
     (WAIT_FOR_NEW_BLOCK_EXECUTION, producing_at block_A2)
   = Inr (TRANSMIT_BLOCK, producing_at rewritten_block)"
proof -
  have e: "exec_GetState example_env = IDLE" "storage_CurrentHash example_env = replicate 32 1"
    by (simp_all add: example_env_def)
  have r: "miner_Mine rewriting_env = (\<lambda>b n. (True, b\<lparr>merkle_hash := replicate 32 7\<rparr>))"
    "block_digest rewriting_env = (\<lambda>b. replicate 32 9)"
    by (simp_all add: rewriting_env_def example_env_def)
  have 1: "Tick example_cfg example_env (WAIT_FOR_NEW_BLOCK_EXECUTION, producing_at block_A2)
      = Inr ((PROOF_SEARCH, producing_at (block_A2\<lparr>merkle_hash := replicate 32 1\<rparr>)),
             [Commit (block_number block_A2)])"
    by (simp add: Tick_def OnWaitForNewBlockExecution_def QueryExecutorStatus_def e
        next_block_producing_at producing_at_def)
  have 2: "Tick example_cfg rewriting_env
             (PROOF_SEARCH, producing_at (block_A2\<lparr>merkle_hash := replicate 32 1\<rparr>))
      = Inr ((TRANSMIT_BLOCK, producing_at rewritten_block),
             [SetLastProcessedBlock (hash rewritten_block)])"
    by (simp add: Tick_def OnProofSearch_def UpdateDigest_def r Let_def
        next_block_producing_at producing_at_def rewritten_block_def)
  show ?thesis by (simp add: 1 2)
qed

lemma rewritten_transmit:
  "Tick example_cfg example_env (TRANSMIT_BLOCK, producing_at rewritten_block)
      = Inr ((RESET, (producing_at rewritten_block)\<lparr>last_executed_block := hash rewritten_block\<rparr>),
             [AddBlock rewritten_block, StatusCacheUpdate (replicate 32 8) EXECUTED,
              LastExecutedBlockSet (hash rewritten_block), OnBlock rewritten_block])"
proof -
  have e: "chain_AddBlock example_env = (\<lambda>b. Returned ADDED)"
    "sink_OnBlock example_env = (\<lambda>b. Returned ())"
    by (simp_all add: example_env_def)
  have u: "UpdateTxStatus_caught example_env rewritten_block
             = ([StatusCacheUpdate (replicate 32 8) EXECUTED], False)"
    by (simp add: UpdateTxStatus_caught_def example_env_def rewritten_block_def block_A2_def)
  show ?thesis
    by (simp add: Tick_def OnTransmitBlock_def e u next_block_producing_at)
qed



section \<open>The claims\<close>

subsection \<open>C1: the last executed block and the storage's hash\<close>

text \<open>
  Claim C1 as stated: wherever \<^verbatim>\<open>last_executed_block\<close> holds a digest, the storage's
  Merkle hash is the one declared by the block with that digest, or the genesis root when
  the digest is the genesis one; and this holds after every update, also on the path of
  \<^verbatim>\<open>POST_EXEC_BLOCK_VALIDATION\<close> for a block whose previous hash is genesis. Six runs of
  the handlers show where it fails.

  \<^item> On that path the handler does not compare: the first example block declares a Merkle
    hash that is not the storage's, and its hash is written all the same.
  \<^item> \<^verbatim>\<open>SYNCHRONIZING\<close> moves the storage and leaves the variable: with the third block
    executed and the storage at its state, the fork makes the handler revert the storage
    to the state of the first block.
  \<^item> So does the invalid branch of \<^verbatim>\<open>POST_EXEC_BLOCK_VALIDATION\<close>: with the first block
    executed, the second one fails the comparison, and the storage ends at the genesis
    root.
  \<^item> While the variable holds the genesis digest the storage need not be at the genesis
    root: a node starts in \<^verbatim>\<open>RELOAD_STATE\<close> on a storage left elsewhere, and the revert
    fails.
  \<^item> \<^verbatim>\<open>TRANSMIT_BLOCK\<close> writes the hash of the candidate without a look at the storage:
    when the storage has moved since the candidate's Merkle hash was taken from it, the
    two differ;
  \<^item> and so they do when the miner has rewritten the candidate's Merkle hash.
\<close>

theorem last_executed_block_apart_from_storage:
  "Tick example_cfg example_env (POST_EXEC_BLOCK_VALIDATION, coordinator_at block_A1)
     = Inr ((RESET, (coordinator_at block_A1)\<lparr>last_executed_block := hash block_A1\<rparr>),
            [StatusCacheUpdate (replicate 32 4) EXECUTED, Commit 1,
             LastExecutedBlockSet (hash block_A1)])
   \<and> previous_hash block_A1 = GENESIS_DIGEST example_cfg
   \<and> storage_hash_after example_env (storage_CurrentHash example_env)
        [StatusCacheUpdate (replicate 32 4) EXECUTED, Commit 1,
         LastExecutedBlockSet (hash block_A1)] \<noteq> merkle_hash block_A1
   \<and> last_executed_block (executed_at block_A3) = hash block_A3
   \<and> storage_CurrentHash fork_env = merkle_hash block_A3
   \<and> Tick example_cfg fork_env (SYNCHRONIZING, executed_at block_A3)
     = Inr ((PRE_EXEC_BLOCK_VALIDATION, (executed_at block_A3)\<lparr>current_block := Some block_B2\<rparr>),
            [RevertToHash (replicate 32 3) 1])
   \<and> last_executed_block ((executed_at block_A3)\<lparr>current_block := Some block_B2\<rparr>)
     = hash block_A3
   \<and> storage_hash_after fork_env (storage_CurrentHash fork_env)
        [RevertToHash (replicate 32 3) 1] \<noteq> merkle_hash block_A3
   \<and> Tick example_cfg diverged_env
        (POST_EXEC_BLOCK_VALIDATION, (coordinator_at block_A2)\<lparr>last_executed_block := hash block_A1\<rparr>)
     = Inr ((RESET, (coordinator_at block_A2)\<lparr>last_executed_block := hash block_A1\<rparr>),
            [RevertToHash (replicate 32 3) 1, RevertToHash (replicate 32 1) 0,
             SetLastProcessedBlock (replicate 32 0), RemoveBlock (hash block_A2)])
   \<and> last_executed_block ((coordinator_at block_A2)\<lparr>last_executed_block := hash block_A1\<rparr>)
     = hash block_A1
   \<and> storage_hash_after diverged_env (storage_CurrentHash diverged_env)
        [RevertToHash (replicate 32 3) 1, RevertToHash (replicate 32 1) 0,
         SetLastProcessedBlock (replicate 32 0), RemoveBlock (hash block_A2)]
     \<noteq> merkle_hash block_A1
   \<and> Tick example_cfg restart_env (RELOAD_STATE, example_coordinator)
     = Inr ((RESET, example_coordinator\<lparr>current_block := Some block_A2\<rparr>),
            [RevertToHash (replicate 32 6) 2])
   \<and> last_executed_block (example_coordinator\<lparr>current_block := Some block_A2\<rparr>)
     = GENESIS_DIGEST example_cfg
   \<and> storage_hash_after restart_env (storage_CurrentHash restart_env)
        [RevertToHash (replicate 32 6) 2] \<noteq> GENESIS_MERKLE_ROOT example_cfg
   \<and> run example_cfg [TickEvent example_env, TickEvent example_env]
        (WAIT_FOR_NEW_BLOCK_EXECUTION, producing_at block_A2)
     = Inr (TRANSMIT_BLOCK, producing_at mined_block)
   \<and> Tick example_cfg moved_env (TRANSMIT_BLOCK, producing_at mined_block)
     = Inr ((RESET, (producing_at mined_block)\<lparr>last_executed_block := hash mined_block\<rparr>),
            [AddBlock mined_block, StatusCacheUpdate (replicate 32 8) EXECUTED,
             LastExecutedBlockSet (hash mined_block), OnBlock mined_block])
   \<and> storage_hash_after moved_env (storage_CurrentHash moved_env)
        [AddBlock mined_block, StatusCacheUpdate (replicate 32 8) EXECUTED,
         LastExecutedBlockSet (hash mined_block), OnBlock mined_block]
     \<noteq> merkle_hash mined_block
   \<and> run example_cfg [TickEvent example_env, TickEvent rewriting_env]
        (WAIT_FOR_NEW_BLOCK_EXECUTION, producing_at block_A2)
     = Inr (TRANSMIT_BLOCK, producing_at rewritten_block)
   \<and> Tick example_cfg example_env (TRANSMIT_BLOCK, producing_at rewritten_block)
     = Inr ((RESET, (producing_at rewritten_block)\<lparr>last_executed_block := hash rewritten_block\<rparr>),
            [AddBlock rewritten_block, StatusCacheUpdate (replicate 32 8) EXECUTED,
             LastExecutedBlockSet (hash rewritten_block), OnBlock rewritten_block])
   \<and> storage_hash_after example_env (storage_CurrentHash example_env)
        [AddBlock rewritten_block, StatusCacheUpdate (replicate 32 8) EXECUTED,
         LastExecutedBlockSet (hash rewritten_block), OnBlock rewritten_block]
     \<noteq> merkle_hash rewritten_block"
proof -
  have genesis: "Tick example_cfg example_env (POST_EXEC_BLOCK_VALIDATION, coordinator_at block_A1)
     = Inr ((RESET, (coordinator_at block_A1)\<lparr>last_executed_block := hash block_A1\<rparr>),
            [StatusCacheUpdate (replicate 32 4) EXECUTED, Commit 1,
             LastExecutedBlockSet (hash block_A1)])"
    by (simp add: Tick_def OnPostExecBlockValidation_def example_cfg_def example_env_def
        block_A1_def current_block_coordinator_at Let_def UpdateTxStatus_def)
  have fields: "previous_hash block_A1 = GENESIS_DIGEST example_cfg"
    "merkle_hash block_A1 = replicate 32 3" "merkle_hash block_A3 = replicate 32 12"
    "merkle_hash mined_block = replicate 32 1" "merkle_hash rewritten_block = replicate 32 7"
    "GENESIS_MERKLE_ROOT example_cfg = replicate 32 1"
    "GENESIS_DIGEST example_cfg = replicate 32 0"
    by (simp_all add: block_A1_def block_A3_def mined_block_def rewritten_block_def
        example_cfg_def)
  have storage: "storage_CurrentHash example_env = replicate 32 1"
    "storage_CurrentHash fork_env = replicate 32 12"
    "storage_RevertToHash fork_env = (\<lambda>h n. h = replicate 32 3)"
    "storage_CurrentHash diverged_env = replicate 32 7"
    "storage_RevertToHash diverged_env = (\<lambda>h n. h = replicate 32 1)"
    "storage_CurrentHash restart_env = replicate 32 7"
    "storage_RevertToHash restart_env = (\<lambda>h n. False)"
    "storage_CurrentHash moved_env = replicate 32 7"
    by (simp_all add: example_env_def fork_env_def diverged_env_def restart_env_def
        moved_env_def)
  have variable: "last_executed_block (executed_at block_A3) = hash block_A3"
    "last_executed_block example_coordinator = replicate 32 0"
    by (simp_all add: executed_at_def example_coordinator_def)
  show ?thesis
    unfolding genesis fork_synchronizing diverged_post_exec restart_reload mined_run
      moved_transmit rewritten_run rewritten_transmit
    by (simp add: fields storage variable)
qed

text \<open>
  Claim C1, amended. A tick that writes a digest \<open>H\<close> to \<^verbatim>\<open>last_executed_block\<close> is one of
  three. In \<^verbatim>\<open>RELOAD_STATE\<close>, \<open>H\<close> is the hash of the current block and the storage's
  hash after the tick is the Merkle hash that block declares. In
  \<^verbatim>\<open>POST_EXEC_BLOCK_VALIDATION\<close>, \<open>H\<close> is the hash of the current block and, unless the
  block's previous hash is genesis, the storage's hash after the tick is the Merkle hash
  the block declares. In \<^verbatim>\<open>TRANSMIT_BLOCK\<close>, \<open>H\<close> is the hash of the candidate block and
  \<^verbatim>\<open>AddBlock\<close> returned \<^verbatim>\<open>ADDED\<close>; when the storage's hash has stayed the same and the miner
  has left the candidate's Merkle hash alone since before the proof search began, the
  storage's hash after the tick is the Merkle hash the candidate declares. No other
  handler writes \<^verbatim>\<open>last_executed_block\<close>, and the variable changes only when it is
  written.
\<close>

theorem last_executed_block_update_matches_storage:
  "(Tick cfg env (st, c) = Inr ((st', c'), calls) \<and> LastExecutedBlockSet H \<in> set calls \<longrightarrow>
      last_executed_block c' = H
      \<and> ((st = RELOAD_STATE
           \<and> (\<exists>b. current_block c' = Some b \<and> hash b = H
                 \<and> storage_hash_after env (storage_CurrentHash env) calls = merkle_hash b))
         \<or> (st = POST_EXEC_BLOCK_VALIDATION
           \<and> (\<exists>b. current_block c = Some b \<and> hash b = H
                 \<and> (previous_hash b = GENESIS_DIGEST cfg
                    \<or> storage_hash_after env (storage_CurrentHash env) calls = merkle_hash b)))
         \<or> (st = TRANSMIT_BLOCK
           \<and> (\<exists>nb. next_block c = Some nb \<and> hash nb = H
                  \<and> chain_AddBlock env nb = Returned ADDED))))
   \<and> ((\<forall>ev \<in> set evs. storage_stays (storage_CurrentHash env) ev)
        \<and> fst m0 \<noteq> PROOF_SEARCH \<and> fst m0 \<noteq> TRANSMIT_BLOCK
        \<and> run cfg evs m0 = Inr (TRANSMIT_BLOCK, c) \<and> st = TRANSMIT_BLOCK
        \<and> Tick cfg env (st, c) = Inr ((st', c'), calls)
        \<and> LastExecutedBlockSet H \<in> set calls \<longrightarrow>
      (\<exists>nb. next_block c = Some nb \<and> hash nb = H
         \<and> storage_hash_after env (storage_CurrentHash env) calls = merkle_hash nb))
   \<and> (Tick cfg env (st, c) = Inr ((st', c'), calls) \<longrightarrow>
      last_executed_block c' = last_executed_block c
      \<or> LastExecutedBlockSet (last_executed_block c') \<in> set calls)"
proof -
  have tick: "Tick cfg env (st, c) = Inr ((st', c'), calls) \<and> LastExecutedBlockSet H \<in> set calls \<longrightarrow>
      last_executed_block c' = H
      \<and> ((st = RELOAD_STATE
           \<and> (\<exists>b. current_block c' = Some b \<and> hash b = H
                 \<and> storage_hash_after env (storage_CurrentHash env) calls = merkle_hash b))
         \<or> (st = POST_EXEC_BLOCK_VALIDATION
           \<and> (\<exists>b. current_block c = Some b \<and> hash b = H
                 \<and> (previous_hash b = GENESIS_DIGEST cfg
                    \<or> storage_hash_after env (storage_CurrentHash env) calls = merkle_hash b)))
         \<or> (st = TRANSMIT_BLOCK
           \<and> (\<exists>nb. next_block c = Some nb \<and> hash nb = H
                  \<and> chain_AddBlock env nb = Returned ADDED)))"
  proof
    assume "Tick cfg env (st, c) = Inr ((st', c'), calls) \<and> LastExecutedBlockSet H \<in> set calls"
    then have t: "Tick cfg env (st, c) = Inr ((st', c'), calls)"
      and m: "LastExecutedBlockSet H \<in> set calls" by simp_all
    from Tick_set [OF t m]
    show "last_executed_block c' = H
      \<and> ((st = RELOAD_STATE
           \<and> (\<exists>b. current_block c' = Some b \<and> hash b = H
                 \<and> storage_hash_after env (storage_CurrentHash env) calls = merkle_hash b))
         \<or> (st = POST_EXEC_BLOCK_VALIDATION
           \<and> (\<exists>b. current_block c = Some b \<and> hash b = H
                 \<and> (previous_hash b = GENESIS_DIGEST cfg
                    \<or> storage_hash_after env (storage_CurrentHash env) calls = merkle_hash b)))
         \<or> (st = TRANSMIT_BLOCK
           \<and> (\<exists>nb. next_block c = Some nb \<and> hash nb = H
                  \<and> chain_AddBlock env nb = Returned ADDED)))" .
  qed
  have transmit: "(\<forall>ev \<in> set evs. storage_stays (storage_CurrentHash env) ev)
        \<and> fst m0 \<noteq> PROOF_SEARCH \<and> fst m0 \<noteq> TRANSMIT_BLOCK
        \<and> run cfg evs m0 = Inr (TRANSMIT_BLOCK, c) \<and> st = TRANSMIT_BLOCK
        \<and> Tick cfg env (st, c) = Inr ((st', c'), calls)
        \<and> LastExecutedBlockSet H \<in> set calls \<longrightarrow>
      (\<exists>nb. next_block c = Some nb \<and> hash nb = H
         \<and> storage_hash_after env (storage_CurrentHash env) calls = merkle_hash nb)"
  proof
    assume a: "(\<forall>ev \<in> set evs. storage_stays (storage_CurrentHash env) ev)
        \<and> fst m0 \<noteq> PROOF_SEARCH \<and> fst m0 \<noteq> TRANSMIT_BLOCK
        \<and> run cfg evs m0 = Inr (TRANSMIT_BLOCK, c) \<and> st = TRANSMIT_BLOCK
        \<and> Tick cfg env (st, c) = Inr ((st', c'), calls)
        \<and> LastExecutedBlockSet H \<in> set calls"
    then have 1: "\<forall>ev \<in> set evs. storage_stays (storage_CurrentHash env) ev"
      and 2: "fst m0 \<noteq> PROOF_SEARCH" and 3: "fst m0 \<noteq> TRANSMIT_BLOCK"
      and 4: "run cfg evs m0 = Inr (TRANSMIT_BLOCK, c)"
      and 5: "st = TRANSMIT_BLOCK"
      and 6: "Tick cfg env (st, c) = Inr ((st', c'), calls)"
      and 7: "LastExecutedBlockSet H \<in> set calls"
      by blast+
    from transmit_after_candidate [OF 1 2 3 4 refl 6 [unfolded 5] 7]
    show "\<exists>nb. next_block c = Some nb \<and> hash nb = H
         \<and> storage_hash_after env (storage_CurrentHash env) calls = merkle_hash nb" .
  qed
  have written: "Tick cfg env (st, c) = Inr ((st', c'), calls) \<longrightarrow>
      last_executed_block c' = last_executed_block c
      \<or> LastExecutedBlockSet (last_executed_block c') \<in> set calls"
    using Tick_logged [of cfg env st c st' c' calls] by blast
  from tick transmit written show ?thesis by (intro conjI)
qed

theorem last_executed_block_update_matches_storage_witness:
  "Tick example_cfg matching_env (POST_EXEC_BLOCK_VALIDATION, coordinator_at block_A2)
     = Inr ((RESET, (coordinator_at block_A2)\<lparr>last_executed_block := hash block_A2\<rparr>),
            [StatusCacheUpdate (replicate 32 8) EXECUTED, Commit 2,
             LastExecutedBlockSet (hash block_A2)])
   \<and> storage_hash_after matching_env (storage_CurrentHash matching_env)
        [StatusCacheUpdate (replicate 32 8) EXECUTED, Commit 2,
         LastExecutedBlockSet (hash block_A2)] = merkle_hash block_A2
   \<and> run example_cfg [TickEvent example_env, TickEvent example_env]
        (WAIT_FOR_NEW_BLOCK_EXECUTION, producing_at block_A2)
      = Inr (TRANSMIT_BLOCK, producing_at mined_block)
   \<and> Tick example_cfg example_env (TRANSMIT_BLOCK, producing_at mined_block)
      = Inr ((RESET, (producing_at mined_block)\<lparr>last_executed_block := hash mined_block\<rparr>),
             [AddBlock mined_block, StatusCacheUpdate (replicate 32 8) EXECUTED,
              LastExecutedBlockSet (hash mined_block), OnBlock mined_block])
   \<and> storage_hash_after example_env (storage_CurrentHash example_env)
        [AddBlock mined_block, StatusCacheUpdate (replicate 32 8) EXECUTED,
         LastExecutedBlockSet (hash mined_block), OnBlock mined_block]
      = merkle_hash mined_block"
proof -
  let ?calls = "[StatusCacheUpdate (replicate 32 8) EXECUTED, Commit 2,
             LastExecutedBlockSet (hash block_A2)]"
  let ?sent = "[AddBlock mined_block, StatusCacheUpdate (replicate 32 8) EXECUTED,
              LastExecutedBlockSet (hash mined_block), OnBlock mined_block]"
  let ?evs = "[TickEvent example_env, TickEvent example_env]"
  have p: "previous_hash block_A2 \<noteq> GENESIS_DIGEST example_cfg"
    by (simp add: block_A2_def example_cfg_def)
  have v: "\<not> (GENESIS_DIGEST example_cfg \<noteq> previous_hash block_A2
             \<and> storage_CurrentHash matching_env \<noteq> merkle_hash block_A2)"
    by (simp add: matching_env_def block_A2_def)
  have u: "UpdateTxStatus block_A2 = [StatusCacheUpdate (replicate 32 8) EXECUTED]"
    "block_number block_A2 = 2"
    by (simp_all add: UpdateTxStatus_eq tx_digests_def block_A2_def)
  have t: "Tick example_cfg matching_env (POST_EXEC_BLOCK_VALIDATION, coordinator_at block_A2)
     = Inr ((RESET, (coordinator_at block_A2)\<lparr>last_executed_block := hash block_A2\<rparr>), ?calls)"
    using OnPostExecBlockValidation_valid [OF current_block_coordinator_at v]
    by (simp add: Tick_def u)
  have m: "LastExecutedBlockSet (hash block_A2) \<in> set ?calls" by simp
  note main = last_executed_block_update_matches_storage
  from main [of example_cfg matching_env POST_EXEC_BLOCK_VALIDATION "coordinator_at block_A2"
      RESET _ ?calls "hash block_A2", THEN conjunct1] t m p
    current_block_coordinator_at [of block_A2]
  have a: "storage_hash_after matching_env (storage_CurrentHash matching_env) ?calls
          = merkle_hash block_A2"
    by simp
  have s: "\<forall>ev \<in> set ?evs. storage_stays (storage_CurrentHash example_env) ev"
    by (simp add: example_env_def)
  have w: "fst (WAIT_FOR_NEW_BLOCK_EXECUTION, producing_at block_A2) \<noteq> PROOF_SEARCH"
    "fst (WAIT_FOR_NEW_BLOCK_EXECUTION, producing_at block_A2) \<noteq> TRANSMIT_BLOCK"
    by simp_all
  have n: "LastExecutedBlockSet (hash mined_block) \<in> set ?sent" by simp
  from main [of example_cfg example_env TRANSMIT_BLOCK "producing_at mined_block"
      RESET _ ?sent "hash mined_block" ?evs "(WAIT_FOR_NEW_BLOCK_EXECUTION, producing_at block_A2)",
      THEN conjunct2, THEN conjunct1]
    s w mined_run mined_transmit n next_block_producing_at [of mined_block]
  have b: "storage_hash_after example_env (storage_CurrentHash example_env) ?sent
          = merkle_hash mined_block"
    by simp
  from t a mined_run mined_transmit b show ?thesis by simp
qed

subsection \<open>C2: a block on genesis is never found invalid after execution\<close>




subsection \<open>C3: the lane check is skipped for a block on genesis\<close>

text \<open>
  Claim C3 as stated: every block entering \<^verbatim>\<open>PRE_EXEC_BLOCK_VALIDATION\<close> whose \<open>log2_num_lanes\<close>
  does not give the configured lane count is removed and the machine reset, blocks on
  genesis included. The first example block declares eight lanes where one is configured,
  sits on genesis, and passes.
\<close>

theorem pre_exec_genesis_lane_mismatch_accepted:
  "previous_hash block_A1 = GENESIS_DIGEST example_cfg
   \<and> unat (num_lanes example_cfg) \<noteq> 2 ^ log2_num_lanes block_A1
   \<and> OnPreExecBlockValidation example_cfg example_env (coordinator_at block_A1)
      = Inr (WAIT_FOR_TRANSACTIONS, coordinator_at block_A1, [])"
  by (simp add: OnPreExecBlockValidation_def example_cfg_def block_A1_def Let_def
      current_block_coordinator_at DIGEST_LENGTH_BYTES_def)

text \<open>
  Claim C3, amended. A block whose previous hash is not the genesis digest and whose
  \<open>log2_num_lanes\<close> (below 32, where the 32-bit shift is defined) does not give the
  configured lane count is rejected: \<^verbatim>\<open>RemoveBlock\<close> is called with its hash and the next
  state is \<^verbatim>\<open>RESET\<close>. A block whose previous hash is the genesis digest is exempt from the
  lane check: it goes on to \<^verbatim>\<open>WAIT_FOR_TRANSACTIONS\<close> when that previous hash has 32 bytes,
  and is rejected otherwise.
\<close>

theorem pre_exec_lane_check:
  assumes "current_block c = Some b"
  shows "(previous_hash b \<noteq> GENESIS_DIGEST cfg \<and> log2_num_lanes b < 32
            \<and> unat (num_lanes cfg) \<noteq> 2 ^ log2_num_lanes b \<longrightarrow>
          OnPreExecBlockValidation cfg env c = Inr (RESET, c, [RemoveBlock (hash b)]))
       \<and> (previous_hash b = GENESIS_DIGEST cfg \<longrightarrow>
          OnPreExecBlockValidation cfg env c =
            (if length (previous_hash b) = 32 then Inr (WAIT_FOR_TRANSACTIONS, c, [])
             else Inr (RESET, c, [RemoveBlock (hash b)])))"
proof (intro conjI impI)
  assume h: "previous_hash b \<noteq> GENESIS_DIGEST cfg \<and> log2_num_lanes b < 32
            \<and> unat (num_lanes cfg) \<noteq> 2 ^ log2_num_lanes b"
  then have "shift_one (log2_num_lanes b) = Inr (ucast (push_bit (log2_num_lanes b) (1 :: 32 word)))"
    by (simp add: shift_one_def)
  moreover have "num_lanes cfg \<noteq> ucast (push_bit (log2_num_lanes b) (1 :: 32 word))"
    using h unat_shift_one_32 [of "log2_num_lanes b"] by auto
  ultimately show "OnPreExecBlockValidation cfg env c = Inr (RESET, c, [RemoveBlock (hash b)])"
    using assms h by (simp add: OnPreExecBlockValidation_def Let_def split: option.splits)
next
  assume "previous_hash b = GENESIS_DIGEST cfg"
  then show "OnPreExecBlockValidation cfg env c =
            (if length (previous_hash b) = 32 then Inr (WAIT_FOR_TRANSACTIONS, c, [])
             else Inr (RESET, c, [RemoveBlock (hash b)]))"
    using assms by (simp add: OnPreExecBlockValidation_def Let_def DIGEST_LENGTH_BYTES_def)
qed

theorem pre_exec_lane_check_witness:
  "chain_GetBlock linked_env (previous_hash block_A2) = Some block_A1
   \<and> block_number block_A2 = block_number block_A1 + 1
   \<and> length (miner block_A2) = 64
   \<and> length (slices block_A2) = num_slices example_cfg
   \<and> length (previous_hash block_A2) = 32
   \<and> OnPreExecBlockValidation example_cfg linked_env (coordinator_at block_A2)
       = Inr (RESET, coordinator_at block_A2, [RemoveBlock (hash block_A2)])
   \<and> OnPreExecBlockValidation eight_lane_cfg linked_env (coordinator_at block_A2)
       = Inr (WAIT_FOR_TRANSACTIONS, coordinator_at block_A2, [])
   \<and> OnPreExecBlockValidation example_cfg example_env (coordinator_at block_A1)
       = Inr (WAIT_FOR_TRANSACTIONS, coordinator_at block_A1, [])"
proof -
  have a2: "previous_hash block_A2 \<noteq> GENESIS_DIGEST example_cfg \<and> log2_num_lanes block_A2 < 32
      \<and> unat (num_lanes example_cfg) \<noteq> 2 ^ log2_num_lanes block_A2"
    by (simp add: block_A2_def example_cfg_def)
  have a1: "previous_hash block_A1 = GENESIS_DIGEST example_cfg"
    "length (previous_hash block_A1) = 32"
    by (simp_all add: block_A1_def example_cfg_def)
  have p: "chain_GetBlock linked_env (previous_hash block_A2) = Some block_A1"
    by (simp add: linked_env_def block_A2_def)
  have o: "block_number block_A2 = block_number block_A1 + 1" "length (miner block_A2) = 64"
    "length (slices block_A2) = num_slices example_cfg" "length (previous_hash block_A2) = 32"
    by (simp_all add: block_A1_def block_A2_def example_cfg_def)
  from pre_exec_lane_check [OF current_block_coordinator_at, of block_A2 example_cfg linked_env] a2
  have 1: "OnPreExecBlockValidation example_cfg linked_env (coordinator_at block_A2)
     = Inr (RESET, coordinator_at block_A2, [RemoveBlock (hash block_A2)])"
    by blast
  have 2: "OnPreExecBlockValidation eight_lane_cfg linked_env (coordinator_at block_A2)
     = Inr (WAIT_FOR_TRANSACTIONS, coordinator_at block_A2, [])"
  proof -
    have b: "previous_hash block_A2 = replicate 32 2" "block_number block_A2 = 2"
      "miner block_A2 = replicate 64 7" "log2_num_lanes block_A2 = 3"
      "length (slices block_A2) = 1" "block_number block_A1 = 1"
      by (simp_all add: block_A1_def block_A2_def)
    have g: "GENESIS_DIGEST eight_lane_cfg = replicate 32 0" "num_lanes eight_lane_cfg = 8"
      "num_slices eight_lane_cfg = 1"
      by (simp_all add: eight_lane_cfg_def example_cfg_def)
    have l: "chain_GetBlock linked_env (replicate 32 2) = Some block_A1"
      by (simp add: linked_env_def)
    show ?thesis
      by (simp add: OnPreExecBlockValidation_def current_block_coordinator_at Let_def b g l
          shift_one_def DIGEST_LENGTH_BYTES_def IDENTITY_LENGTH_BYTES_def)
  qed
  from pre_exec_lane_check [OF current_block_coordinator_at, of block_A1 example_cfg example_env] a1
  have 3: "OnPreExecBlockValidation example_cfg example_env (coordinator_at block_A1)
     = Inr (WAIT_FOR_TRANSACTIONS, coordinator_at block_A1, [])"
    by simp
  from p o 1 2 3 show ?thesis by simp
qed

subsection \<open>C4: a block is removed only after a failed validation\<close>

text \<open>
  Claim C4. Whatever the state, the variables and the collaborators' answers, a tick that
  calls \<^verbatim>\<open>RemoveBlock\<close> calls it with the hash of the current block, and is either the tick
  of \<^verbatim>\<open>PRE_EXEC_BLOCK_VALIDATION\<close> on a block that fails one of its documented checks, or
  the tick of \<^verbatim>\<open>POST_EXEC_BLOCK_VALIDATION\<close> on a block whose Merkle comparison fails. No
  other handler calls it.
\<close>

theorem remove_block_only_after_failed_check:
  assumes "Tick cfg env (st, c) = Inr (m', calls)"
    and "RemoveBlock d \<in> set calls"
  shows "\<exists>b. current_block c = Some b \<and> d = hash b
           \<and> ((st = PRE_EXEC_BLOCK_VALIDATION \<and> pre_exec_check_failed cfg env b)
              \<or> (st = POST_EXEC_BLOCK_VALIDATION \<and> merkle_check_failed cfg env b))"
proof -
  from assms(1) obtain st' c' where h: "handler st cfg env c = Inr (st', c', calls)"
    by (auto simp: Tick_def split: sum.splits)
  consider "st = PRE_EXEC_BLOCK_VALIDATION" | "st = POST_EXEC_BLOCK_VALIDATION"
    | "st \<noteq> PRE_EXEC_BLOCK_VALIDATION" "st \<noteq> POST_EXEC_BLOCK_VALIDATION"
    by blast
  then show ?thesis
  proof cases
    case 1
    with h assms(2) OnPreExecBlockValidation_remove [of cfg env c st' c' calls d]
    show ?thesis by simp
  next
    case 2
    with h assms(2) OnPostExecBlockValidation_remove [of cfg env c st' c' calls d]
    show ?thesis by simp
  next
    case 3
    with h assms(2) handler_no_remove show ?thesis by blast
  qed
qed

theorem remove_block_only_after_failed_check_witness:
  "Tick example_cfg example_env (PRE_EXEC_BLOCK_VALIDATION, coordinator_at block_A2)
     = Inr ((RESET, coordinator_at block_A2), [RemoveBlock (hash block_A2)])
   \<and> pre_exec_check_failed example_cfg example_env block_A2"
proof -
  have t: "Tick example_cfg example_env (PRE_EXEC_BLOCK_VALIDATION, coordinator_at block_A2)
     = Inr ((RESET, coordinator_at block_A2), [RemoveBlock (hash block_A2)])"
    by (simp add: Tick_def OnPreExecBlockValidation_def current_block_coordinator_at Let_def
        example_env_def example_cfg_def block_A2_def)
  have m: "RemoveBlock (hash block_A2) \<in> set [RemoveBlock (hash block_A2)]" by simp
  from remove_block_only_after_failed_check [OF t m] current_block_coordinator_at [of block_A2]
  have "pre_exec_check_failed example_cfg example_env block_A2" by auto
  with t show ?thesis by simp
qed

subsection \<open>C5: synchronising along the path to the common ancestor\<close>

text \<open>
  Claim C5 as stated: once the path is found, either the ancestor's state is unknown to the storage
  and the coordinator resets everything to genesis, or it reverts to the ancestor, takes
  the penultimate block and goes to \<^verbatim>\<open>PRE_EXEC_BLOCK_VALIDATION\<close>. The handler checks the
  result of the revert: in the example the storage knows the ancestor's state and fails
  to restore it, and the next state is \<^verbatim>\<open>RESET\<close> with the current block kept.
\<close>

theorem synchronizing_failed_revert_resets:
  "exec_LastProcessedBlock reorg_env \<noteq> GENESIS_DIGEST example_cfg
   \<and> exec_LastProcessedBlock reorg_env \<noteq> hash block_A3
   \<and> chain_GetPathToCommonAncestor reorg_env (hash block_A3) (exec_LastProcessedBlock reorg_env)
       = Some [block_A3, block_A2, block_A1]
   \<and> storage_HashExists reorg_env (merkle_hash block_A1) (block_number block_A1)
   \<and> OnSynchronizing example_cfg reorg_env (coordinator_at block_A3)
       = Inr (RESET, coordinator_at block_A3,
              [RevertToHash (merkle_hash block_A1) (block_number block_A1)])"
  by (simp add: OnSynchronizing_def reorg_env_def example_env_def example_cfg_def
      current_block_coordinator_at Let_def block_A3_def)

text \<open>
  Claim C5, amended. In \<^verbatim>\<open>SYNCHRONIZING\<close>, when the last processed block is neither genesis
  nor the current block's hash and the path to the common ancestor is found with at least
  two blocks: if the storage does not know the ancestor's state, the coordinator sets the
  last processed block to genesis, reverts to the genesis root and goes to \<^verbatim>\<open>RESET\<close>;
  otherwise it calls \<^verbatim>\<open>RevertToHash\<close> for the ancestor, and when that succeeds sets the
  current block to the penultimate element and goes to \<^verbatim>\<open>PRE_EXEC_BLOCK_VALIDATION\<close>, and
  when it fails goes to \<^verbatim>\<open>RESET\<close> with the current block unchanged.
\<close>

theorem synchronizing_common_ancestor:
  assumes cur: "current_or_heaviest env c = Some cb"
    and lpb: "exec_LastProcessedBlock env \<noteq> GENESIS_DIGEST cfg"
      "exec_LastProcessedBlock env \<noteq> hash cb"
    and path: "chain_GetPathToCommonAncestor env (hash cb) (exec_LastProcessedBlock env)
                 = Some blocks"
    and len: "2 \<le> length blocks"
  shows "(\<not> storage_HashExists env (merkle_hash (last blocks)) (block_number (last blocks)) \<longrightarrow>
            OnSynchronizing cfg env c =
              Inr (RESET, c\<lparr>current_block := Some cb\<rparr>,
                   [SetLastProcessedBlock (GENESIS_DIGEST cfg),
                    RevertToHash (GENESIS_MERKLE_ROOT cfg) 0]))
       \<and> (storage_HashExists env (merkle_hash (last blocks)) (block_number (last blocks))
            \<and> storage_RevertToHash env (merkle_hash (last blocks)) (block_number (last blocks)) \<longrightarrow>
            OnSynchronizing cfg env c =
              Inr (PRE_EXEC_BLOCK_VALIDATION,
                   c\<lparr>current_block := Some (blocks ! (length blocks - 2))\<rparr>,
                   [RevertToHash (merkle_hash (last blocks)) (block_number (last blocks))]))
       \<and> (storage_HashExists env (merkle_hash (last blocks)) (block_number (last blocks))
            \<and> \<not> storage_RevertToHash env (merkle_hash (last blocks)) (block_number (last blocks)) \<longrightarrow>
            OnSynchronizing cfg env c =
              Inr (RESET, c\<lparr>current_block := Some cb\<rparr>,
                   [RevertToHash (merkle_hash (last blocks)) (block_number (last blocks))]))"
proof -
  define c1 where "c1 = (if current_block c = None
                then c\<lparr>current_block := chain_GetHeaviestBlock env\<rparr> else c)"
  have c1: "c1 = c\<lparr>current_block := Some cb\<rparr>"
    using cur by (auto simp: c1_def current_or_heaviest_def split: option.splits)
  have l: "blocks ! (length blocks - Suc 0) = last blocks"
    using len by (cases blocks) (auto simp: last_conv_nth)
  have n: "\<not> length blocks < 2" using len by simp
  have g: "GENESIS_DIGEST cfg \<noteq> exec_LastProcessedBlock env"
    "hash cb \<noteq> exec_LastProcessedBlock env"
    using lpb by auto
  have "OnSynchronizing cfg env c =
     (let common_parent = last blocks; next_blk = blocks ! (length blocks - 2)
      in if \<not> storage_HashExists env (merkle_hash common_parent) (block_number common_parent)
         then Inr (RESET, c1,
                   [SetLastProcessedBlock (GENESIS_DIGEST cfg),
                    RevertToHash (GENESIS_MERKLE_ROOT cfg) 0])
         else if \<not> storage_RevertToHash env (merkle_hash common_parent)
                     (block_number common_parent)
         then Inr (RESET, c1,
                   [RevertToHash (merkle_hash common_parent) (block_number common_parent)])
         else Inr (PRE_EXEC_BLOCK_VALIDATION, c1\<lparr>current_block := Some next_blk\<rparr>,
                   [RevertToHash (merkle_hash common_parent) (block_number common_parent)]))"
    unfolding OnSynchronizing_def c1_def [symmetric]
    by (simp add: c1 Let_def g path n l)
  then show ?thesis
    by (simp add: c1 Let_def)
qed

theorem synchronizing_common_ancestor_witness:
  "OnSynchronizing example_cfg reorg_env (coordinator_at block_A3)
       = Inr (RESET, coordinator_at block_A3,
              [RevertToHash (merkle_hash block_A1) (block_number block_A1)])
   \<and> OnSynchronizing example_cfg (reorg_env\<lparr>storage_RevertToHash := (\<lambda>h n. True)\<rparr>)
        (coordinator_at block_A3)
       = Inr (PRE_EXEC_BLOCK_VALIDATION, coordinator_at block_A2,
              [RevertToHash (merkle_hash block_A1) (block_number block_A1)])
   \<and> OnSynchronizing example_cfg (reorg_env\<lparr>storage_HashExists := (\<lambda>h n. False)\<rparr>)
        (coordinator_at block_A3)
       = Inr (RESET, coordinator_at block_A3,
              [SetLastProcessedBlock (GENESIS_DIGEST example_cfg),
               RevertToHash (GENESIS_MERKLE_ROOT example_cfg) 0])"
proof -
  have u: "(coordinator_at block_A3)\<lparr>current_block := Some block_A3\<rparr> = coordinator_at block_A3"
    "(coordinator_at block_A3)\<lparr>current_block := Some block_A2\<rparr> = coordinator_at block_A2"
    by (simp_all add: coordinator_at_def)
  have l: "last [block_A3, block_A2, block_A1] = block_A1"
    "[block_A3, block_A2, block_A1] ! (length [block_A3, block_A2, block_A1] - 2) = block_A2"
    "2 \<le> length [block_A3, block_A2, block_A1]"
    by simp_all
  have h: "hash block_A3 = replicate 32 11" by (simp add: block_A3_def)
  let ?e2 = "reorg_env\<lparr>storage_RevertToHash := (\<lambda>h n. True)\<rparr>"
  let ?e3 = "reorg_env\<lparr>storage_HashExists := (\<lambda>h n. False)\<rparr>"
  have 1: "OnSynchronizing example_cfg reorg_env (coordinator_at block_A3)
       = Inr (RESET, coordinator_at block_A3,
              [RevertToHash (merkle_hash block_A1) (block_number block_A1)])"
    using synchronizing_common_ancestor
      [of reorg_env "coordinator_at block_A3" block_A3 example_cfg "[block_A3, block_A2, block_A1]"]
    by (simp add: l u h current_or_heaviest_def current_block_coordinator_at reorg_env_def
        example_env_def example_cfg_def)
  have 2: "OnSynchronizing example_cfg ?e2 (coordinator_at block_A3)
       = Inr (PRE_EXEC_BLOCK_VALIDATION, coordinator_at block_A2,
              [RevertToHash (merkle_hash block_A1) (block_number block_A1)])"
    using synchronizing_common_ancestor
      [of ?e2 "coordinator_at block_A3" block_A3 example_cfg "[block_A3, block_A2, block_A1]"]
    by (simp add: l u h current_or_heaviest_def current_block_coordinator_at reorg_env_def
        example_env_def example_cfg_def)
  have 3: "OnSynchronizing example_cfg ?e3 (coordinator_at block_A3)
       = Inr (RESET, coordinator_at block_A3,
              [SetLastProcessedBlock (GENESIS_DIGEST example_cfg),
               RevertToHash (GENESIS_MERKLE_ROOT example_cfg) 0])"
    using synchronizing_common_ancestor
      [of ?e3 "coordinator_at block_A3" block_A3 example_cfg "[block_A3, block_A2, block_A1]"]
    by (simp add: l u h current_or_heaviest_def current_block_coordinator_at reorg_env_def
        example_env_def example_cfg_def)
  from 1 2 3 show ?thesis by simp
qed

subsection \<open>C6: the length of the path to the common ancestor\<close>



subsection \<open>C7: waiting for transactions\<close>

text \<open>
  Claim C7. On a tick of \<^verbatim>\<open>WAIT_FOR_TRANSACTIONS\<close> that has a pending set or a current
  block to fill it from: the set is every transaction hash of every slice of the current
  block when it was unset; every entry the storage has is removed and nothing is added, so
  a set that was there only shrinks; when nothing is left the set is released and the next
  state is \<^verbatim>\<open>SCHEDULE_BLOCK_EXECUTION\<close>; otherwise a delay of 200 ms is asked for and the
  state stays \<^verbatim>\<open>WAIT_FOR_TRANSACTIONS\<close>. No other variable changes.
\<close>

theorem wait_for_transactions_tick:
  assumes "pending_txs c = None \<longrightarrow> current_block c \<noteq> None"
  shows "\<exists>st' c' calls.
           OnWaitForTransactions cfg env c = Inr (st', c', calls)
         \<and> c' = c\<lparr>pending_txs := pending_txs c'\<rparr>
         \<and> ({d \<in> pending_before c. \<not> storage_HasTransaction env d} = {} \<longrightarrow>
              st' = SCHEDULE_BLOCK_EXECUTION \<and> pending_txs c' = None \<and> calls = [])
         \<and> ({d \<in> pending_before c. \<not> storage_HasTransaction env d} \<noteq> {} \<longrightarrow>
              st' = WAIT_FOR_TRANSACTIONS \<and> calls = [Delay 200]
              \<and> (\<exists>s'. pending_txs c' = Some s'
                    \<and> set s' = {d \<in> pending_before c. \<not> storage_HasTransaction env d}))
         \<and> (\<forall>s s'. pending_txs c = Some s \<and> pending_txs c' = Some s' \<longrightarrow> set s' \<subseteq> set s)"
proof (cases "pending_txs c")
  case None
  with assms obtain b where b: "current_block c = Some b" by auto
  show ?thesis
    using None b
    by (auto simp: OnWaitForTransactions_def pending_before_def Let_def set_erase_present
        set_insert_slices simp flip: set_empty)
next
  case (Some s)
  show ?thesis
    using Some
    by (auto simp: OnWaitForTransactions_def pending_before_def Let_def set_erase_present
        simp flip: set_empty)
qed

theorem wait_for_transactions_tick_witness:
  "(\<exists>c'. OnWaitForTransactions example_cfg example_env (coordinator_at busy_block)
        = Inr (SCHEDULE_BLOCK_EXECUTION, c', []) \<and> pending_txs c' = None)
   \<and> (\<exists>c' s'. OnWaitForTransactions example_cfg partial_env (coordinator_at busy_block)
        = Inr (WAIT_FOR_TRANSACTIONS, c', [Delay 200])
        \<and> pending_txs c' = Some s' \<and> set s' = {replicate 32 8, replicate 32 13})"
proof -
  have h: "pending_txs (coordinator_at busy_block) = None
             \<longrightarrow> current_block (coordinator_at busy_block) \<noteq> None"
    by (simp add: current_block_coordinator_at)
  have p: "pending_before (coordinator_at busy_block)
             = {replicate 32 4, replicate 32 8, replicate 32 13}"
    by (auto simp: pending_before_def pending_txs_coordinator_at current_block_coordinator_at
        busy_block_def)
  have e1: "{d \<in> pending_before (coordinator_at busy_block). \<not> storage_HasTransaction example_env d} = {}"
    by (simp add: example_env_def)
  have e2: "{d \<in> pending_before (coordinator_at busy_block). \<not> storage_HasTransaction partial_env d}
            = {replicate 32 8, replicate 32 13}"
    by (auto simp: p partial_env_def)
  from wait_for_transactions_tick [OF h, of example_cfg example_env] e1
  have "\<exists>c'. OnWaitForTransactions example_cfg example_env (coordinator_at busy_block)
        = Inr (SCHEDULE_BLOCK_EXECUTION, c', []) \<and> pending_txs c' = None"
    by auto
  moreover
  from wait_for_transactions_tick [OF h, of example_cfg partial_env] e2
  have "\<exists>c' s'. OnWaitForTransactions example_cfg partial_env (coordinator_at busy_block)
        = Inr (WAIT_FOR_TRANSACTIONS, c', [Delay 200])
        \<and> pending_txs c' = Some s' \<and> set s' = {replicate 32 8, replicate 32 13}"
    by auto
  ultimately show ?thesis by simp
qed

subsection \<open>C8: the reset\<close>

text \<open>
  Claim C8. The handler of \<^verbatim>\<open>RESET\<close> takes no account of how the state was entered: after
  it, the current block, the next block and the pending set are unset, the stall count is
  0, the next block time is the present time plus the block period, no call was made, and
  the next state is \<^verbatim>\<open>SYNCHRONIZING\<close>.
\<close>

theorem reset_clears_transient_state:
  "\<exists>c'. OnReset cfg env c = Inr (SYNCHRONIZING, c', [])
     \<and> current_block c' = None \<and> next_block c' = None \<and> pending_txs c' = None
     \<and> stall_count c' = 0 \<and> next_block_time c' = clock_now env + block_period c"
  by (simp add: OnReset_def UpdateNextBlockTime_def)

subsection \<open>C9: transmitting the block\<close>

text \<open>
  Claim C9 says that the three effects happen exactly when \<^verbatim>\<open>AddBlock\<close> returned
  \<^verbatim>\<open>ADDED\<close>, and that none of them occurs on an exception. The \<^verbatim>\<open>try\<close> block encloses the
  effects themselves. With the block added and the status cache throwing at the second of
  three transactions, two updates are made, \<^verbatim>\<open>last_executed_block\<close> keeps its value and the
  sink is not called; with the sink throwing, all the effects have taken place when the
  exception is caught.
\<close>

theorem transmit_block_exception_after_added:
  "chain_AddBlock failing_cache_env busy_block = Returned ADDED
   \<and> OnTransmitBlock example_cfg failing_cache_env (producing_at busy_block)
       = Inr (RESET, producing_at busy_block,
              [AddBlock busy_block, StatusCacheUpdate (replicate 32 4) EXECUTED,
               StatusCacheUpdate (replicate 32 8) EXECUTED])
   \<and> sink_OnBlock failing_sink_env busy_block = Threw
   \<and> OnTransmitBlock example_cfg failing_sink_env (producing_at busy_block)
       = Inr (RESET, (producing_at busy_block)\<lparr>last_executed_block := hash busy_block\<rparr>,
              [AddBlock busy_block, StatusCacheUpdate (replicate 32 4) EXECUTED,
               StatusCacheUpdate (replicate 32 8) EXECUTED,
               StatusCacheUpdate (replicate 32 13) EXECUTED,
               LastExecutedBlockSet (hash busy_block), OnBlock busy_block])"
proof -
  have s: "slices busy_block = [[\<lparr>transaction_hash = replicate 32 4\<rparr>,
                                \<lparr>transaction_hash = replicate 32 8\<rparr>],
                               [\<lparr>transaction_hash = replicate 32 13\<rparr>]]"
    by (simp add: busy_block_def)
  have 1: "OnTransmitBlock example_cfg failing_cache_env (producing_at busy_block)
       = Inr (RESET, producing_at busy_block,
              [AddBlock busy_block, StatusCacheUpdate (replicate 32 4) EXECUTED,
               StatusCacheUpdate (replicate 32 8) EXECUTED])"
    by (simp add: OnTransmitBlock_def next_block_producing_at UpdateTxStatus_caught_def s
        failing_cache_env_def example_env_def)
  have 2: "OnTransmitBlock example_cfg failing_sink_env (producing_at busy_block)
       = Inr (RESET, (producing_at busy_block)\<lparr>last_executed_block := hash busy_block\<rparr>,
              [AddBlock busy_block, StatusCacheUpdate (replicate 32 4) EXECUTED,
               StatusCacheUpdate (replicate 32 8) EXECUTED,
               StatusCacheUpdate (replicate 32 13) EXECUTED,
               LastExecutedBlockSet (hash busy_block), OnBlock busy_block])"
    by (simp add: OnTransmitBlock_def next_block_producing_at UpdateTxStatus_caught_def s
        failing_sink_env_def example_env_def)
  show ?thesis
    by (simp add: 1 2) (simp add: failing_cache_env_def failing_sink_env_def example_env_def)
qed

text \<open>
  Claim C9, corrected. In \<^verbatim>\<open>TRANSMIT_BLOCK\<close>, with the candidate block set, the next state
  is \<^verbatim>\<open>RESET\<close> in every case. When \<^verbatim>\<open>AddBlock\<close> returns anything but \<^verbatim>\<open>ADDED\<close>, or
  throws, it is the only call made and no variable changes. When it returns \<^verbatim>\<open>ADDED\<close>,
  the transactions of the block are marked executed in the status cache, slice after slice;
  if every update returns, \<^verbatim>\<open>last_executed_block\<close> becomes the block's hash and the sink's
  \<^verbatim>\<open>OnBlock\<close> is called with the block, whether that call returns or throws; if an update
  throws, the updates stop with it, \<^verbatim>\<open>last_executed_block\<close> keeps its value and the sink
  is not called.
\<close>

theorem transmit_block_effects:
  assumes "next_block c = Some nb"
  shows "OnTransmitBlock cfg env c =
     (if chain_AddBlock env nb = Returned ADDED
      then (if list_all (\<lambda>d. status_cache_Update env d EXECUTED \<noteq> Threw)
                 (concat (map (map transaction_hash) (slices nb)))
            then Inr (RESET, c\<lparr>last_executed_block := hash nb\<rparr>,
                      AddBlock nb
                        # map (\<lambda>d. StatusCacheUpdate d EXECUTED)
                            (concat (map (map transaction_hash) (slices nb)))
                        @ [LastExecutedBlockSet (hash nb), OnBlock nb])
            else Inr (RESET, c,
                      AddBlock nb
                        # map (\<lambda>d. StatusCacheUpdate d EXECUTED)
                            (takeWhile (\<lambda>d. status_cache_Update env d EXECUTED \<noteq> Threw)
                               (concat (map (map transaction_hash) (slices nb)))
                             @ take 1 (dropWhile (\<lambda>d. status_cache_Update env d EXECUTED \<noteq> Threw)
                                         (concat (map (map transaction_hash) (slices nb)))))))
      else Inr (RESET, c, [AddBlock nb]))"
  using OnTransmitBlock_eq [OF assms, of cfg env] by (simp only: tx_digests_def)

theorem transmit_block_effects_witness:
  "OnTransmitBlock example_cfg example_env (producing_at busy_block)
     = Inr (RESET, (producing_at busy_block)\<lparr>last_executed_block := hash busy_block\<rparr>,
            [AddBlock busy_block, StatusCacheUpdate (replicate 32 4) EXECUTED,
             StatusCacheUpdate (replicate 32 8) EXECUTED,
             StatusCacheUpdate (replicate 32 13) EXECUTED,
             LastExecutedBlockSet (hash busy_block), OnBlock busy_block])
   \<and> OnTransmitBlock example_cfg failing_cache_env (producing_at busy_block)
     = Inr (RESET, producing_at busy_block,
            [AddBlock busy_block, StatusCacheUpdate (replicate 32 4) EXECUTED,
             StatusCacheUpdate (replicate 32 8) EXECUTED])
   \<and> OnTransmitBlock example_cfg (example_env\<lparr>chain_AddBlock := (\<lambda>b. Returned DUPLICATE)\<rparr>)
        (producing_at busy_block)
     = Inr (RESET, producing_at busy_block, [AddBlock busy_block])
   \<and> OnTransmitBlock example_cfg (example_env\<lparr>chain_AddBlock := (\<lambda>b. Threw)\<rparr>)
        (producing_at busy_block)
     = Inr (RESET, producing_at busy_block, [AddBlock busy_block])"
proof -
  have s: "slices busy_block = [[\<lparr>transaction_hash = replicate 32 4\<rparr>,
                                \<lparr>transaction_hash = replicate 32 8\<rparr>],
                               [\<lparr>transaction_hash = replicate 32 13\<rparr>]]"
    by (simp add: busy_block_def)
  have a: "chain_AddBlock example_env busy_block = Returned ADDED"
    "status_cache_Update example_env = (\<lambda>d status. Returned ())"
    by (simp_all add: example_env_def)
  have f: "chain_AddBlock failing_cache_env busy_block = Returned ADDED"
    "status_cache_Update failing_cache_env
       = (\<lambda>d status. if d = replicate 32 8 then Threw else Returned ())"
    by (simp_all add: failing_cache_env_def example_env_def)
  from transmit_block_effects [OF next_block_producing_at, of example_cfg example_env busy_block]
  have "OnTransmitBlock example_cfg example_env (producing_at busy_block)
     = Inr (RESET, (producing_at busy_block)\<lparr>last_executed_block := hash busy_block\<rparr>,
            [AddBlock busy_block, StatusCacheUpdate (replicate 32 4) EXECUTED,
             StatusCacheUpdate (replicate 32 8) EXECUTED,
             StatusCacheUpdate (replicate 32 13) EXECUTED,
             LastExecutedBlockSet (hash busy_block), OnBlock busy_block])"
    by (simp add: a s)
  moreover
  from transmit_block_effects [OF next_block_producing_at, of example_cfg failing_cache_env busy_block]
  have "OnTransmitBlock example_cfg failing_cache_env (producing_at busy_block)
     = Inr (RESET, producing_at busy_block,
            [AddBlock busy_block, StatusCacheUpdate (replicate 32 4) EXECUTED,
             StatusCacheUpdate (replicate 32 8) EXECUTED])"
    by (simp add: f s)
  moreover
  from transmit_block_effects [OF next_block_producing_at,
      of example_cfg "example_env\<lparr>chain_AddBlock := (\<lambda>b. Returned DUPLICATE)\<rparr>" busy_block]
  have "OnTransmitBlock example_cfg (example_env\<lparr>chain_AddBlock := (\<lambda>b. Returned DUPLICATE)\<rparr>)
        (producing_at busy_block)
     = Inr (RESET, producing_at busy_block, [AddBlock busy_block])"
    by simp
  moreover
  from transmit_block_effects [OF next_block_producing_at,
      of example_cfg "example_env\<lparr>chain_AddBlock := (\<lambda>b. Threw)\<rparr>" busy_block]
  have "OnTransmitBlock example_cfg (example_env\<lparr>chain_AddBlock := (\<lambda>b. Threw)\<rparr>)
        (producing_at busy_block)
     = Inr (RESET, producing_at busy_block, [AddBlock busy_block])"
    by simp
  ultimately show ?thesis by simp
qed

subsection \<open>C10: the block references are set where they are read\<close>

text \<open>
  Claim C10. Start in \<^verbatim>\<open>RELOAD_STATE\<close> with any variables, and let any ticks and calls
  of \<^verbatim>\<open>TriggerBlockGeneration\<close> follow, the chain giving a heaviest block whenever it is
  asked. Then no tick dereferences an unset block reference; and in the state reached, the
  current block is set if the state is \<^verbatim>\<open>SYNCHRONIZED\<close>, \<^verbatim>\<open>PRE_EXEC_BLOCK_VALIDATION\<close>,
  \<^verbatim>\<open>WAIT_FOR_TRANSACTIONS\<close>, \<^verbatim>\<open>WAIT_FOR_EXECUTION\<close> or \<^verbatim>\<open>POST_EXEC_BLOCK_VALIDATION\<close>, the
  next block is set if the state is \<^verbatim>\<open>PACK_NEW_BLOCK\<close>, \<^verbatim>\<open>EXECUTE_NEW_BLOCK\<close>,
  \<^verbatim>\<open>WAIT_FOR_NEW_BLOCK_EXECUTION\<close>, \<^verbatim>\<open>PROOF_SEARCH\<close> or \<^verbatim>\<open>TRANSMIT_BLOCK\<close>, and the next
  tick does not dereference an unset block reference either.
\<close>

theorem block_references_set_where_read:
  assumes "\<forall>ev \<in> set evs. heaviest_block_known ev"
  shows "run cfg evs (RELOAD_STATE, c0) \<noteq> Inl NullDereference
       \<and> (\<forall>st c. run cfg evs (RELOAD_STATE, c0) = Inr (st, c) \<longrightarrow>
            (reads_current_block st \<longrightarrow> current_block c \<noteq> None)
            \<and> (reads_next_block st \<longrightarrow> next_block c \<noteq> None)
            \<and> (\<forall>env. chain_GetHeaviestBlock env \<noteq> None \<longrightarrow>
                   Tick cfg env (st, c) \<noteq> Inl NullDereference))"
proof -
  have i: "block_references_set (RELOAD_STATE, c0)" by (simp add: refs_defs)
  note r = run_refs [OF i assms, of cfg]
  show ?thesis
  proof (intro conjI allI impI)
    show "run cfg evs (RELOAD_STATE, c0) \<noteq> Inl NullDereference" using r by simp
  next
    fix st c assume "run cfg evs (RELOAD_STATE, c0) = Inr (st, c)" "reads_current_block st"
    with r [of "(st, c)"] show "current_block c \<noteq> None" by (simp add: block_references_set_def)
  next
    fix st c assume "run cfg evs (RELOAD_STATE, c0) = Inr (st, c)" "reads_next_block st"
    with r [of "(st, c)"] show "next_block c \<noteq> None" by (simp add: block_references_set_def)
  next
    fix st c and env :: collaborators
    assume a: "run cfg evs (RELOAD_STATE, c0) = Inr (st, c)" "chain_GetHeaviestBlock env \<noteq> None"
    with r [of "(st, c)"] have "block_references_set (st, c)" by simp
    from Tick_refs [OF this a(2), of cfg] show "Tick cfg env (st, c) \<noteq> Inl NullDereference"
      by simp
  qed
qed

theorem block_references_set_where_read_witness:
  "run example_cfg [TickEvent heaviest_env, TickEvent heaviest_env, TickEvent heaviest_env]
     (RELOAD_STATE, example_coordinator)
   = Inr (PRE_EXEC_BLOCK_VALIDATION,
          example_coordinator\<lparr>current_block := Some block_A1, next_block_time := 110\<rparr>)
   \<and> current_block (example_coordinator\<lparr>current_block := Some block_A1, next_block_time := 110\<rparr>)
       \<noteq> None
   \<and> Tick example_cfg heaviest_env
        (PRE_EXEC_BLOCK_VALIDATION,
         example_coordinator\<lparr>current_block := Some block_A1, next_block_time := 110\<rparr>)
       \<noteq> Inl NullDereference"
proof -
  let ?evs = "[TickEvent heaviest_env, TickEvent heaviest_env, TickEvent heaviest_env]"
  have h: "chain_GetHeaviestBlock heaviest_env \<noteq> None"
    by (simp add: heaviest_env_def)
  then have k: "\<forall>ev \<in> set ?evs. heaviest_block_known ev" by simp
  have r: "reads_current_block PRE_EXEC_BLOCK_VALIDATION"
    by (simp add: reads_current_block_def)
  from block_references_set_where_read [OF k, of example_cfg example_coordinator] example_run r h
  show ?thesis by simp
qed

end
